theory Spec2Isabelle
  imports Complex_Main "HOL-Library.Char_ord" "HOL-Library.List_Lexorder"
begin

section \<open>The chatbot core of app.py\<close>

text \<open>
  A shallow embedding of \<^verbatim>\<open>src/app.py\<close>: the rate-limited page fetcher
  (\<^verbatim>\<open>rate_limited_get_url_content\<close>), the TF-IDF matcher
  (\<^verbatim>\<open>preprocess\<close>, \<^verbatim>\<open>custom_semantic_match\<close>) and the router
  (\<^verbatim>\<open>generate_response\<close>).

  Conventions of the model.
  \<^item> Text is a HOL \<open>string\<close>, and a character of it is the Unicode code point of the
    same number, 0 to 255; characters with greater code points are outside the model.
    The character classes (\<open>lower\<close>, \<open>isspace\<close>, \<open>isalpha\<close>, the line boundaries of
    \<^verbatim>\<open>splitlines\<close>, the \<^verbatim>\<open>\w\<close> of the vectorizer's token pattern) are those of Python on
    all 256 of them.
  \<^item> Time is a \<open>real\<close> number of seconds. The weights, vectors and similarities of the
    matcher are computed in exact real arithmetic, where the libraries compute in
    float64 and round after each operation; the constant of the comparison in line 110
    is the float64 value that the literal \<^verbatim>\<open>0.6\<close> denotes. What is proved about lines 108
    to 115 is proved for every vector of similarities, the rounded ones among them.
  \<^item> Module-level mutable state (the decorator's counters, \<^verbatim>\<open>last_request_time\<close>) and
    the wall clock are fields of the record \<open>world\<close>, passed in and returned; each call of
    the fetcher and each call it makes to the outside (sleep, HTTP GET, HTML parser) is
    appended to its \<open>events\<close>. One clock stands for \<^verbatim>\<open>time.time\<close> and for the clock of
    the decorator: each of the two timestamps is compared with readings of its own clock
    only.
  \<^item> An exception that leaves a function is the \<open>Inl\<close> of a sum type.
  \<^item> Calls are made one after the other; two requests served at the same time are not
    modelled. The clock moves in the program's own sleeps and between two calls; the time
    that an HTTP request or the parser takes is part of the pause before the next call, so
    the clock at the end of a call is the time at which the call has passed the limiter
    and the wait of lines 76 to 79, the time that line 79 records.
  \<^item> What the libraries compute from data that is not in the program text (the network,
    the HTML parser, NLTK's tokenizers, stop-word list and lemmatizer, the local time) is
    the record \<open>env\<close>, a parameter of every function that uses it.
\<close>

subsection \<open>Python string operations\<close>

definition ascii_uppercase :: string where
  "ascii_uppercase = ''ABCDEFGHIJKLMNOPQRSTUVWXYZ''"

definition ascii_lowercase :: string where
  "ascii_lowercase = ''abcdefghijklmnopqrstuvwxyz''"

definition digits :: string where
  "digits = ''0123456789''"

definition latin_uppercase :: string where
  \<comment> \<open>the capital letters from U+00C0 to U+00DE (U+00D7 is the multiplication sign)\<close>
  "latin_uppercase =
     [CHR 0xC0, CHR 0xC1, CHR 0xC2, CHR 0xC3, CHR 0xC4, CHR 0xC5, CHR 0xC6, CHR 0xC7,
      CHR 0xC8, CHR 0xC9, CHR 0xCA, CHR 0xCB, CHR 0xCC, CHR 0xCD, CHR 0xCE, CHR 0xCF,
      CHR 0xD0, CHR 0xD1, CHR 0xD2, CHR 0xD3, CHR 0xD4, CHR 0xD5, CHR 0xD6, CHR 0xD8,
      CHR 0xD9, CHR 0xDA, CHR 0xDB, CHR 0xDC, CHR 0xDD, CHR 0xDE]"

definition latin_lowercase :: string where
  \<comment> \<open>their small letters, from U+00E0 to U+00FE, in the same order\<close>
  "latin_lowercase =
     [CHR 0xE0, CHR 0xE1, CHR 0xE2, CHR 0xE3, CHR 0xE4, CHR 0xE5, CHR 0xE6, CHR 0xE7,
      CHR 0xE8, CHR 0xE9, CHR 0xEA, CHR 0xEB, CHR 0xEC, CHR 0xED, CHR 0xEE, CHR 0xEF,
      CHR 0xF0, CHR 0xF1, CHR 0xF2, CHR 0xF3, CHR 0xF4, CHR 0xF5, CHR 0xF6, CHR 0xF8,
      CHR 0xF9, CHR 0xFA, CHR 0xFB, CHR 0xFC, CHR 0xFD, CHR 0xFE]"

definition latin_caseless :: string where
  \<comment> \<open>letters without a small or capital partner below 256: U+00AA, U+00B5, U+00BA,
      U+00DF, U+00FF\<close>
  "latin_caseless = [CHR 0xAA, CHR 0xB5, CHR 0xBA, CHR 0xDF, CHR 0xFF]"

definition latin_numeric :: string where
  \<comment> \<open>the superscripts and fractions U+00B2, U+00B3, U+00B9, U+00BC to U+00BE:
      word characters that are not letters\<close>
  "latin_numeric = [CHR 0xB2, CHR 0xB3, CHR 0xB9, CHR 0xBC, CHR 0xBD, CHR 0xBE]"

definition lower_char :: "char \<Rightarrow> char" where
  "lower_char c =
     (case map_of (zip (ascii_uppercase @ latin_uppercase) (ascii_lowercase @ latin_lowercase)) c
      of None \<Rightarrow> c | Some d \<Rightarrow> d)"

definition lower :: "string \<Rightarrow> string" where
  "lower s = map lower_char s"

definition isspace :: "char \<Rightarrow> bool" where
  \<comment> \<open>tab, LF, VT, FF, CR, FS, GS, RS, US, the space, NEL (U+0085) and the no-break
      space (U+00A0)\<close>
  "isspace c =
     (c \<in> set [CHR 0x09, CHR 0x0A, CHR 0x0B, CHR 0x0C, CHR 0x0D,
                CHR 0x1C, CHR 0x1D, CHR 0x1E, CHR 0x1F, CHR 0x20, CHR 0x85, CHR 0xA0])"

definition strip :: "string \<Rightarrow> string" where
  "strip s = rev (dropWhile isspace (rev (dropWhile isspace s)))"

definition startswith :: "string \<Rightarrow> string \<Rightarrow> bool" where
  "startswith s p = (take (length p) s = p)"

fun contains :: "string \<Rightarrow> string \<Rightarrow> bool" where
  \<comment> \<open>\<^verbatim>\<open>sub in s\<close>\<close>
  "contains sub [] = (sub = [])"
| "contains sub (c # cs) = (if startswith (c # cs) sub then True else contains sub cs)"

definition is_alpha_char :: "char \<Rightarrow> bool" where
  "is_alpha_char c =
     (c \<in> set (ascii_uppercase @ ascii_lowercase
                @ latin_uppercase @ latin_lowercase @ latin_caseless))"

definition isalpha :: "string \<Rightarrow> bool" where
  \<comment> \<open>\<^verbatim>\<open>str.isalpha\<close>: non-empty and every character a letter\<close>
  "isalpha s = (s \<noteq> [] \<and> list_all is_alpha_char s)"

definition is_linebreak :: "char \<Rightarrow> bool" where
  \<comment> \<open>the line boundaries of \<^verbatim>\<open>str.splitlines\<close>: LF, VT, FF, CR, FS, GS, RS, NEL\<close>
  "is_linebreak c =
     (c \<in> set [CHR 0x0A, CHR 0x0B, CHR 0x0C, CHR 0x0D, CHR 0x1C, CHR 0x1D, CHR 0x1E,
                CHR 0x85])"

fun splitlines_from :: "string \<Rightarrow> string \<Rightarrow> string list" where
  \<comment> \<open>\<open>cur\<close> is the line read so far; CR LF is one boundary; no empty last line\<close>
  "splitlines_from cur [] = (if cur = [] then [] else [cur])"
| "splitlines_from cur (c # cs) =
     (if is_linebreak c then
        (case cs of
           [] \<Rightarrow> [cur]
         | d # ds \<Rightarrow>
             if c = CHR 0x0D \<and> d = CHR 0x0A then cur # splitlines_from [] ds
             else cur # splitlines_from [] (d # ds))
      else splitlines_from (cur @ [c]) cs)"

definition splitlines :: "string \<Rightarrow> string list" where
  "splitlines s = splitlines_from [] s"

fun split_2sp_from :: "string \<Rightarrow> string \<Rightarrow> string list" where
  \<comment> \<open>\<^verbatim>\<open>line.split("  ")\<close>: cut at each occurrence of two spaces, left to right\<close>
  "split_2sp_from cur [] = [cur]"
| "split_2sp_from cur [c] = [cur @ [c]]"
| "split_2sp_from cur (c # d # cs) =
     (if c = CHR '' '' \<and> d = CHR '' '' then cur # split_2sp_from [] cs
      else split_2sp_from (cur @ [c]) (d # cs))"

definition split_2sp :: "string \<Rightarrow> string list" where
  "split_2sp s = split_2sp_from [] s"

fun join :: "string \<Rightarrow> string list \<Rightarrow> string" where
  "join sep [] = []"
| "join sep [x] = x"
| "join sep (x # y # ys) = x @ sep @ join sep (y # ys)"

definition digit_char :: "nat \<Rightarrow> char" where
  "digit_char n = digits ! (n mod 10)"

fun str_nat :: "nat \<Rightarrow> string" where
  \<comment> \<open>decimal text of a number, as an f-string prints it\<close>
  "str_nat n = (if n < 10 then [digit_char n] else str_nat (n div 10) @ [digit_char n])"

subsection \<open>The outside world\<close>

record response =
  status_code :: nat
  reason :: string
  resp_url :: string
  body :: string

datatype get_outcome =
    RaisesRequestException string
  | RaisesOther string
  | Returns response

record env =
  requests_get :: "string \<Rightarrow> get_outcome"
  soup_text :: "string \<Rightarrow> string + string"
  word_tokenize :: "string \<Rightarrow> string list"
  sent_tokenize :: "string \<Rightarrow> string list"
  lemmatize :: "string \<Rightarrow> string"
  stop_words :: "string set"
  strftime :: "string \<Rightarrow> string"

text \<open>
  \<^item> \<open>requests_get env url\<close> is what \<^verbatim>\<open>requests.get(url, headers=..., timeout=10)\<close>
    does: it raises a \<^verbatim>\<open>RequestException\<close> (connection error, timeout, invalid URL) with
    a message, raises something else, or returns a response.
  \<^item> \<open>soup_text env html\<close> is lines 86 to 89: parse with BeautifulSoup, drop the
    \<^verbatim>\<open>script\<close> and \<^verbatim>\<open>style\<close> nodes, \<^verbatim>\<open>get_text()\<close>; \<open>Inl m\<close> when that raises with message \<open>m\<close>.
  \<^item> \<open>strftime env fmt\<close> is \<^verbatim>\<open>time.strftime(fmt)\<close> at the moment of the call.
\<close>

datatype event = Call string | Sleep real | Get string | Parse string

record world =
  num_calls :: nat
  last_reset :: real
  last_request_time :: real
  clock :: real
  events :: "event list"

datatype error = RateLimitException real

definition log :: "event \<Rightarrow> world \<Rightarrow> world" where
  "log e w = w\<lparr>events := events w @ [e]\<rparr>"

definition sleep :: "real \<Rightarrow> world \<Rightarrow> world" where
  "sleep d w = log (Sleep d) (w\<lparr>clock := clock w + d\<rparr>)"

definition tick :: "real \<Rightarrow> world \<Rightarrow> world" where
  \<comment> \<open>time that passes outside the program's own sleeps\<close>
  "tick d w = w\<lparr>clock := clock w + d\<rparr>"

subsection \<open>The decorator \<^verbatim>\<open>ratelimit.limits(calls=10, period=60)\<close>\<close>

text \<open>
  The decorator of line 73 comes from the package \<^verbatim>\<open>ratelimit\<close>. Its wrapper keeps a
  counter \<^verbatim>\<open>num_calls\<close> and the start \<^verbatim>\<open>last_reset\<close> of the current period. On each call:
  \<^verbatim>\<open>
    period_remaining = period - (clock() - last_reset)
    if period_remaining <= 0: num_calls = 0; last_reset = clock()
    num_calls += 1
    if num_calls > clamped_calls:
        if raise_on_limit: raise RateLimitException('too many calls', period_remaining)
        return
    return func(url)
  \<close>
  \<^verbatim>\<open>raise_on_limit\<close> is \<^verbatim>\<open>True\<close> unless given, and line 73 does not give it; the program
  does not use \<^verbatim>\<open>ratelimit.sleep_and_retry\<close>.
\<close>

definition calls_limit :: nat where
  "calls_limit = 10"

definition period :: real where
  "period = 60"

definition period_remaining :: "world \<Rightarrow> real" where
  "period_remaining w = period - (clock w - last_reset w)"

definition limits_enter :: "world \<Rightarrow> world \<times> (error + unit)" where
  "limits_enter w =
     (let pr = period_remaining w;
          w1 = (if pr \<le> 0 then w\<lparr>num_calls := 0, last_reset := clock w\<rparr> else w);
          w2 = w1\<lparr>num_calls := num_calls w1 + 1\<rparr>
      in if num_calls w2 > calls_limit then (w2, Inl (RateLimitException pr))
         else (w2, Inr ()))"

subsection \<open>\<^verbatim>\<open>rate_limited_get_url_content\<close>, lines 73 to 97\<close>

definition politeness_delay :: "world \<Rightarrow> world" where
  \<comment> \<open>lines 76 to 79\<close>
  "politeness_delay w =
     (let current_time = clock w;
          w1 = (if current_time - last_request_time w < 1
                then sleep (1 - (current_time - last_request_time w)) w else w)
      in w1\<lparr>last_request_time := clock w1\<rparr>)"

definition http_error_msg :: "response \<Rightarrow> string" where
  \<comment> \<open>the text of the \<^verbatim>\<open>HTTPError\<close> that \<^verbatim>\<open>raise_for_status\<close> builds\<close>
  "http_error_msg r =
     str_nat (status_code r)
     @ (if status_code r < 500 then '' Client Error: '' else '' Server Error: '')
     @ reason r @ '' for url: '' @ resp_url r"

definition clean_text :: "string \<Rightarrow> string" where
  \<comment> \<open>lines 90 to 92\<close>
  "clean_text t =
     (let lines = map strip (splitlines t);
          chunks = map strip (concat (map split_2sp lines))
      in join [CHR 0x0A] (filter (\<lambda>chunk. chunk \<noteq> []) chunks))"

definition get_url_content :: "env \<Rightarrow> world \<Rightarrow> string \<Rightarrow> world \<times> string" where
  \<comment> \<open>the decorated function's own body, lines 75 to 97\<close>
  "get_url_content env w url =
     (let w1 = log (Get url) (politeness_delay w) in
      case requests_get env url of
        RaisesRequestException m \<Rightarrow> (w1, ''Error accessing URL: '' @ m)
      | RaisesOther m \<Rightarrow> (w1, ''An unexpected error occurred during scraping: '' @ m)
      | Returns r \<Rightarrow>
          if 400 \<le> status_code r \<and> status_code r < 600
          then (w1, ''Error accessing URL: '' @ http_error_msg r)
          else if contains ''Disallow'' (body r)
          then (w1, ''Scraping not permitted by website.'')
          else
            (let w2 = log (Parse (body r)) w1 in
             case soup_text env (body r) of
               Inl m \<Rightarrow> (w2, ''An unexpected error occurred during scraping: '' @ m)
             | Inr t \<Rightarrow> (w2, clean_text t)))"

definition rate_limited_get_url_content ::
  "env \<Rightarrow> world \<Rightarrow> string \<Rightarrow> world \<times> (error + string)" where
  "rate_limited_get_url_content env w url =
     (case limits_enter (log (Call url) w) of
        (w1, Inl e) \<Rightarrow> (w1, Inl e)
      | (w1, Inr u) \<Rightarrow>
          (case get_url_content env w1 url of (w2, s) \<Rightarrow> (w2, Inr s)))"

subsection \<open>The knowledge base and the vectorizer, lines 32 to 46\<close>

datatype answer = Static string | Dynamic "(string \<Rightarrow> string) \<Rightarrow> string"

record entry =
  question :: string
  answer :: answer

text \<open>
  An entry with \<^verbatim>\<open>"dynamic": True\<close> holds a lambda that formats the local time: it is a
  \<open>Dynamic\<close> answer, a function of \<^verbatim>\<open>time.strftime\<close>; the others are \<open>Static\<close>.
\<close>

definition ADVANCED_KNOWLEDGE :: "entry list" where
  "ADVANCED_KNOWLEDGE =
    [\<lparr>question = ''hello'', answer = Static ''Hello there! How can I help you today?''\<rparr>,
     \<lparr>question = ''how are you'',
      answer = Static (''I'' @ [CHR 0x27] @ ''m just a program, but I'' @ [CHR 0x27]
                       @ ''m doing great! Thanks for asking.'')\<rparr>,
     \<lparr>question = ''what is your name'', answer = Static ''I am an NLTK Flask Chatbot.''\<rparr>,
     \<lparr>question = ''tell me a joke'',
      answer = Static (''Why don'' @ [CHR 0x27]
                       @ ''t scientists trust atoms? Because they make up everything!'')\<rparr>,
     \<lparr>question = ''what time is it'',
      answer = Dynamic (\<lambda>fmt. ''The current time is '' @ fmt ''%H:%M:%S'' @ ''.'')\<rparr>,
     \<lparr>question = ''what is the date'',
      answer = Dynamic (\<lambda>fmt. ''Today'' @ [CHR 0x27] @ ''s date is '' @ fmt ''%Y-%m-%d'' @ ''.'')\<rparr>,
     \<lparr>question = ''who is albert einstein'',
      answer = Static ''Albert Einstein was a theoretical physicist who developed the theory of relativity.''\<rparr>,
     \<lparr>question = ''define artificial intelligence'',
      answer = Static ''Artificial Intelligence is the simulation of human intelligence in machines.''\<rparr>]"

definition knowledge_questions :: "string list" where
  "knowledge_questions = map question ADVANCED_KNOWLEDGE"

text \<open>
  \<^verbatim>\<open>TfidfVectorizer()\<close> with its defaults: the analyzer lowercases and takes the matches
  of \<^verbatim>\<open>(?u)\b\w\w+\b\<close>, the maximal runs of word characters that are at least two long;
  the vocabulary is the sorted list of the terms of the fitted documents; the weight of
  a term is \<^verbatim>\<open>ln((1 + n) / (1 + df)) + 1\<close>; a row is the term counts times the weights,
  divided by its Euclidean norm (a zero row is left as it is).
\<close>

definition is_word_char :: "char \<Rightarrow> bool" where
  "is_word_char c =
     (c \<in> set (digits @ ascii_uppercase @ ''_'' @ ascii_lowercase
                @ latin_uppercase @ latin_lowercase @ latin_caseless @ latin_numeric))"

fun word_runs :: "string \<Rightarrow> string \<Rightarrow> string list" where
  "word_runs cur [] = (if cur = [] then [] else [cur])"
| "word_runs cur (c # cs) =
     (if is_word_char c then word_runs (cur @ [c]) cs
      else if cur = [] then word_runs [] cs
      else cur # word_runs [] cs)"

definition analyze :: "string \<Rightarrow> string list" where
  "analyze doc = filter (\<lambda>t. 2 \<le> length t) (word_runs [] (lower doc))"

definition vocabulary :: "string list" where
  "vocabulary = sort (remdups (concat (map analyze knowledge_questions)))"

definition doc_freq :: "string \<Rightarrow> nat" where
  "doc_freq t = length (filter (\<lambda>d. List.member (analyze d) t) knowledge_questions)"

definition smooth_idf :: "nat \<Rightarrow> nat \<Rightarrow> real" where
  \<comment> \<open>the weight of a term found in \<open>df\<close> of \<open>n\<close> documents\<close>
  "smooth_idf n df = ln ((1 + real n) / (1 + real df)) + 1"

definition idf :: "string \<Rightarrow> real" where
  "idf t = smooth_idf (length knowledge_questions) (doc_freq t)"

definition term_counts :: "string \<Rightarrow> nat list" where
  "term_counts doc = map (count_list (analyze doc)) vocabulary"

definition norm2 :: "real list \<Rightarrow> real" where
  "norm2 v = sqrt (sum_list (map (\<lambda>x. x * x) v))"

definition l2_normalize :: "real list \<Rightarrow> real list" where
  "l2_normalize v = (let n = norm2 v in if n = 0 then v else map (\<lambda>x. x / n) v)"

definition tf_idf :: "string \<Rightarrow> real list" where
  \<comment> \<open>the row before normalisation: count times weight, one entry per vocabulary term\<close>
  "tf_idf doc = map2 (\<lambda>c t. real c * idf t) (term_counts doc) vocabulary"

definition transform :: "string \<Rightarrow> real list" where
  "transform doc = l2_normalize (tf_idf doc)"

definition knowledge_vectors :: "real list list" where
  \<comment> \<open>line 46: fitted on, and computed from, the questions as they are written\<close>
  "knowledge_vectors = map transform knowledge_questions"

definition dot :: "real list \<Rightarrow> real list \<Rightarrow> real" where
  "dot x y = sum_list (map2 (*) x y)"

definition cosine_similarity :: "real list \<Rightarrow> real list list \<Rightarrow> real list" where
  \<comment> \<open>scikit-learn normalises both sides again before the product\<close>
  "cosine_similarity x Y = map (\<lambda>y. dot (l2_normalize x) (l2_normalize y)) Y"

fun argmax_from :: "nat \<Rightarrow> real \<Rightarrow> nat \<Rightarrow> real list \<Rightarrow> nat" where
  \<comment> \<open>best index and value so far, the next index, the values still to read\<close>
  "argmax_from b v i [] = b"
| "argmax_from b v i (x # xs) =
     (if v < x then argmax_from i x (Suc i) xs else argmax_from b v (Suc i) xs)"

definition argmax :: "real list \<Rightarrow> nat" where
  \<comment> \<open>the first index of the greatest value; the list is never empty here\<close>
  "argmax xs = (case xs of [] \<Rightarrow> 0 | x # rest \<Rightarrow> argmax_from 0 x 1 rest)"

subsection \<open>\<^verbatim>\<open>preprocess\<close> and \<^verbatim>\<open>custom_semantic_match\<close>, lines 99 to 115\<close>

definition preprocess :: "env \<Rightarrow> string \<Rightarrow> string" where
  "preprocess env txt =
     (let tokens = word_tokenize env (lower txt);
          lemmas = map (lemmatize env)
                     (filter (\<lambda>token. isalpha token \<and> token \<notin> stop_words env) tokens)
      in join '' '' lemmas)"

definition similarities :: "env \<Rightarrow> string \<Rightarrow> real list" where
  \<comment> \<open>lines 105 to 107\<close>
  "similarities env user_input =
     cosine_similarity (transform (preprocess env user_input)) knowledge_vectors"

definition threshold :: real where
  \<comment> \<open>the float64 value of the literal \<^verbatim>\<open>0.6\<close> in line 110, a little below six tenths\<close>
  "threshold = 5404319552844595 / 9007199254740992"

definition pick_answer :: "env \<Rightarrow> real list \<Rightarrow> string option" where
  \<comment> \<open>lines 108 to 115, on the array of similarities that line 107 has computed\<close>
  "pick_answer env sims =
     (let max_sim_idx = argmax sims;
          max_sim_score = sims ! max_sim_idx
      in if max_sim_score > threshold then
           (case answer (ADVANCED_KNOWLEDGE ! max_sim_idx) of
              Dynamic f \<Rightarrow> Some (f (strftime env))
            | Static s \<Rightarrow> Some s)
         else None)"

definition custom_semantic_match :: "env \<Rightarrow> string \<Rightarrow> string option" where
  "custom_semantic_match env user_input = pick_answer env (similarities env user_input)"

subsection \<open>\<^verbatim>\<open>generate_response\<close>, lines 117 to 136\<close>

definition preview :: "string \<Rightarrow> string" where
  \<comment> \<open>line 126\<close>
  "preview scraped_text =
     take 500 scraped_text @ (if length scraped_text > 500 then ''...'' else '''')"

definition fallback :: "env \<Rightarrow> string \<Rightarrow> string" where
  \<comment> \<open>lines 133 to 136\<close>
  "fallback env user_input =
     (case sent_tokenize env user_input of
        [] \<Rightarrow> ''I'' @ [CHR 0x27] @ ''m not sure how to respond to that.''
      | s # rest \<Rightarrow>
          ''I'' @ [CHR 0x27] @ ''m not sure how to respond to that. You said: '' @ [CHR 0x22]
          @ s @ [CHR 0x22])"

definition generate_response :: "env \<Rightarrow> world \<Rightarrow> string \<Rightarrow> world \<times> (error + string)" where
  "generate_response env w user_input =
     (if startswith (lower user_input) ''scrape '' then
        (let url = strip (drop (length ''scrape '') user_input) in
         if url \<noteq> [] then
           (case rate_limited_get_url_content env w url of
              (w1, Inl e) \<Rightarrow> (w1, Inl e)
            | (w1, Inr scraped_text) \<Rightarrow>
                if startswith scraped_text ''Error''
                   \<or> startswith scraped_text ''Scraping not permitted''
                then (w1, Inr scraped_text)
                else (w1, Inr (''Successfully scraped content from '' @ url @ '':<br><pre>''
                               @ preview scraped_text @ ''</pre>'')))
         else (w, Inr ''Please provide a URL to scrape.''))
      else
        (case custom_semantic_match env user_input of
           Some m \<Rightarrow> if m \<noteq> [] then (w, Inr m) else (w, Inr (fallback env user_input))
         | None \<Rightarrow> (w, Inr (fallback env user_input))))"

subsection \<open>Sequences of calls\<close>

fun serve :: "env \<Rightarrow> world \<Rightarrow> (real \<times> string) list \<Rightarrow> (world \<times> (error + string)) list" where
  \<comment> \<open>calls of the fetcher one after the other; \<open>d\<close> is the time that passed since the call
      before was let through\<close>
  "serve env w [] = []"
| "serve env w ((d, url) # rest) =
     (let r = rate_limited_get_url_content env (tick d w) url in r # serve env (fst r) rest)"

fun chat :: "env \<Rightarrow> world \<Rightarrow> (real \<times> string) list \<Rightarrow> (world \<times> (error + string)) list" where
  \<comment> \<open>the messages of a conversation, each answered by \<open>generate_response\<close>\<close>
  "chat env w [] = []"
| "chat env w ((d, msg) # rest) =
     (let r = generate_response env (tick d w) msg in r # chat env (fst r) rest)"

subsection \<open>Observing a run\<close>

definition succeeded :: "world \<times> (error + string) \<Rightarrow> bool" where
  \<comment> \<open>the call returned a string\<close>
  "succeeded r = (case snd r of Inl e \<Rightarrow> False | Inr s \<Rightarrow> True)"

fun spaced :: "real list \<Rightarrow> bool" where
  \<comment> \<open>each time is at least one second after the one before\<close>
  "spaced (x # y # rest) = (x + 1 \<le> y \<and> spaced (y # rest))"
| "spaced rest = True"

text \<open>
  The rate limiter reads and writes four fields of the world only; \<open>limiter_call\<close> is
  \<open>rate_limited_get_url_content\<close> seen on these four, and \<open>limiter_run\<close> is \<open>serve\<close>. They
  are compared with the functions above in the lemmas \<open>view_call\<close> and \<open>view_serve\<close>.
\<close>

type_synonym limiter = "nat \<times> real \<times> real \<times> real"

definition view :: "world \<Rightarrow> limiter" where
  "view w = (num_calls w, last_reset w, last_request_time w, clock w)"

definition raised :: "world \<times> (error + string) \<Rightarrow> error option" where
  "raised r = (case snd r of Inl e \<Rightarrow> Some e | Inr s \<Rightarrow> None)"

fun limiter_call :: "limiter \<Rightarrow> error option \<times> limiter" where
  "limiter_call (n, s, l, c) =
     (let pr = 60 - (c - s);
          n1 = (if pr \<le> 0 then 1 else n + 1);
          s1 = (if pr \<le> 0 then c else s);
          c1 = (if c - l < 1 then l + 1 else c)
      in if 10 < n1 then (Some (RateLimitException pr), (n1, s1, l, c))
         else (None, (n1, s1, c1, c1)))"

fun limiter_run :: "limiter \<Rightarrow> real list \<Rightarrow> (error option \<times> limiter) list" where
  "limiter_run v [] = []"
| "limiter_run (n, s, l, c) (d # ds) =
     (let r = limiter_call (n, s, l, c + d) in r # limiter_run (snd r) ds)"

definition window :: "error option \<times> limiter \<Rightarrow> real" where
  \<comment> \<open>the start of the period a call was counted in\<close>
  "window r = fst (snd (snd r))"

definition started :: "error option \<times> limiter \<Rightarrow> real" where
  "started r = fst (snd (snd (snd r)))"

definition fetch_calls :: "event list \<Rightarrow> string list" where
  \<comment> \<open>the URLs \<open>rate_limited_get_url_content\<close> was called with, in order\<close>
  "fetch_calls es = concat (map (\<lambda>e. case e of Call u \<Rightarrow> [u] | _ \<Rightarrow> []) es)"

definition http_gets :: "event list \<Rightarrow> string list" where
  \<comment> \<open>the URLs \<^verbatim>\<open>requests.get\<close> was called with, in order\<close>
  "http_gets es = concat (map (\<lambda>e. case e of Get u \<Rightarrow> [u] | _ \<Rightarrow> []) es)"

definition parses :: "event list \<Rightarrow> string list" where
  \<comment> \<open>the documents given to the HTML parser, in order\<close>
  "parses es = concat (map (\<lambda>e. case e of Parse b \<Rightarrow> [b] | _ \<Rightarrow> []) es)"

subsection \<open>A sample environment\<close>

text \<open>
  Concrete values for the parameters, used to run the functions on examples. The pages
  are plain text with no markup, on which BeautifulSoup's \<^verbatim>\<open>get_text\<close> returns the text
  itself. One URL has a host name with a label of 64 letters, one more than a label may
  have: urllib3 refuses to connect with a \<^verbatim>\<open>LocationParseError\<close>, which is not a
  \<^verbatim>\<open>RequestException\<close> and which \<^verbatim>\<open>requests.get\<close> lets through as it is. The tokenizers
  are those of NLTK on text made of words and single
  blanks, the only text the examples give them; the stop words are the entries of NLTK's
  English list that consist of letters; the lemmatizer leaves the words of the examples
  as they are.
\<close>

definition page :: "string \<Rightarrow> nat \<Rightarrow> string \<Rightarrow> get_outcome" where
  "page url code txt =
     Returns \<lparr>status_code = code, reason = (if code = 200 then ''OK'' else ''Not Found''),
              resp_url = url, body = txt\<rparr>"

definition long_label_host :: string where
  \<comment> \<open>64 letters before the first dot\<close>
  "long_label_host =
     ''aaaaaaaaaaaaaaaaaaaaaaaaaaaaaaaaaaaaaaaaaaaaaaaaaaaaaaaaaaaaaaaa.example.com''"

definition long_label_url :: string where
  "long_label_url =
     ''http://aaaaaaaaaaaaaaaaaaaaaaaaaaaaaaaaaaaaaaaaaaaaaaaaaaaaaaaaaaaaaaaa.example.com''"

definition sample_site :: "string \<Rightarrow> get_outcome" where
  "sample_site url =
     (if url = ''http://example.com'' then page url 200 ''Example Domain''
      else if url = ''http://example.com/robots.txt'' then
        page url 200 (''User-agent: *'' @ [CHR 0x0A] @ ''Disallow: /private'')
      else if url = ''http://example.com/status'' then page url 200 ''Error budget: 3 of 5 left''
      else if url = ''http://example.com/long'' then page url 200 (replicate 501 (CHR ''x''))
      else if url = long_label_url then
        RaisesOther (''Failed to parse: '' @ [CHR 0x27] @ long_label_host @ [CHR 0x27]
                     @ '', label empty or too long'')
      else if url = ''http://example.com/gone'' then page url 404 ''Disallowed or missing''
      else RaisesRequestException ''Connection refused'')"

definition sample_soup :: "string \<Rightarrow> string + string" where
  "sample_soup html = Inr html"

definition blank_split :: "string \<Rightarrow> string list" where
  "blank_split s =
     filter (\<lambda>t. t \<noteq> [])
       (splitlines_from [] (map (\<lambda>c. if isspace c then CHR 0x0A else c) s))"

definition english_stop_words :: "string list" where
  "english_stop_words =
    [''i'', ''me'', ''my'', ''myself'', ''we'', ''our'', ''ours'', ''ourselves'', ''you'',
     ''your'', ''yours'', ''yourself'', ''yourselves'', ''he'', ''him'', ''his'', ''himself'',
     ''she'', ''her'', ''hers'', ''herself'', ''it'', ''its'', ''itself'', ''they'', ''them'',
     ''their'', ''theirs'', ''themselves'', ''what'', ''which'', ''who'', ''whom'', ''this'',
     ''that'', ''these'', ''those'', ''am'', ''is'', ''are'', ''was'', ''were'', ''be'', ''been'',
     ''being'', ''have'', ''has'', ''had'', ''having'', ''do'', ''does'', ''did'', ''doing'',
     ''a'', ''an'', ''the'', ''and'', ''but'', ''if'', ''or'', ''because'', ''as'', ''until'',
     ''while'', ''of'', ''at'', ''by'', ''for'', ''with'', ''about'', ''against'', ''between'',
     ''into'', ''through'', ''during'', ''before'', ''after'', ''above'', ''below'', ''to'',
     ''from'', ''up'', ''down'', ''in'', ''out'', ''on'', ''off'', ''over'', ''under'', ''again'',
     ''further'', ''then'', ''once'', ''here'', ''there'', ''when'', ''where'', ''why'', ''how'',
     ''all'', ''any'', ''both'', ''each'', ''few'', ''more'', ''most'', ''other'', ''some'',
     ''such'', ''no'', ''nor'', ''not'', ''only'', ''own'', ''same'', ''so'', ''than'', ''too'',
     ''very'', ''s'', ''t'', ''can'', ''will'', ''just'', ''don'', ''should'', ''now'', ''d'',
     ''ll'', ''m'', ''o'', ''re'', ''ve'', ''y'', ''ain'', ''aren'', ''couldn'', ''didn'',
     ''doesn'', ''hadn'', ''hasn'', ''haven'', ''isn'', ''ma'', ''mightn'', ''mustn'', ''needn'',
     ''shan'', ''shouldn'', ''wasn'', ''weren'', ''won'', ''wouldn'']"

definition sample_env :: env where
  "sample_env =
     \<lparr>requests_get = sample_site, soup_text = sample_soup, word_tokenize = blank_split,
      sent_tokenize = (\<lambda>s. if strip s = [] then [] else [strip s]),
      lemmatize = (\<lambda>t. t), stop_words = set english_stop_words,
      strftime = (\<lambda>fmt. if fmt = ''%H:%M:%S'' then ''12:00:00'' else ''2026-01-01'')\<rparr>"

definition world0 :: world where
  \<comment> \<open>the state after import: no call counted, both timestamps at the import time\<close>
  "world0 = \<lparr>num_calls = 0, last_reset = 0, last_request_time = 0, clock = 0, events = []\<rparr>"

definition full_world :: world where
  \<comment> \<open>ten calls counted in the period that began at 0, the last of them at time 10\<close>
  "full_world = \<lparr>num_calls = 10, last_reset = 0, last_request_time = 10, clock = 10,
                 events = []\<rparr>"

section \<open>Properties\<close>

subsection \<open>The limiter on its four fields\<close>

lemmas fetch_defs = rate_limited_get_url_content_def limits_enter_def period_remaining_def period_def
  calls_limit_def log_def get_url_content_def politeness_delay_def sleep_def

lemma view_call:
  "(raised (rate_limited_get_url_content env w url), view (fst (rate_limited_get_url_content env w url)))
     = limiter_call (view w)"
  by (simp add: fetch_defs view_def raised_def Let_def split: get_outcome.splits sum.splits)

lemma view_tick: "view (tick d w) = (num_calls w, last_reset w, last_request_time w, clock w + d)"
  by (simp add: view_def tick_def)

lemma view_serve:
  "map (\<lambda>r. (raised r, view (fst r))) (serve env w calls) = limiter_run (view w) (map fst calls)"
proof (induction calls arbitrary: w)
  case Nil
  show ?case by simp
next
  case (Cons a calls)
  obtain d url where a: "a = (d, url)" by (cases a)
  let ?r = "rate_limited_get_url_content env (tick d w) url"
  have v: "view w = (num_calls w, last_reset w, last_request_time w, clock w)" by (simp add: view_def)
  have c: "limiter_call (num_calls w, last_reset w, last_request_time w, clock w + d)
             = (raised ?r, view (fst ?r))"
    using view_call [of env "tick d w" url] by (simp only: view_tick)
  show ?case
    using Cons.IH [of "fst ?r"]
    by (simp add: a v c Let_def del: limiter_call.simps)
qed


lemma limiter_call_window:
  "window (limiter_call (n, s, l, c)) = s \<or> s + 60 \<le> window (limiter_call (n, s, l, c))"
  by (simp add: window_def Let_def)

lemma limiter_run_windows:
  "r \<in> set (limiter_run (n, s, l, c) ds) \<Longrightarrow> window r = s \<or> s + 60 \<le> window r"
proof (induction ds arbitrary: n s l c r)
  case Nil
  then show ?case by simp
next
  case (Cons d ds)
  obtain e n1 s1 l1 c1 where call: "limiter_call (n, s, l, c + d) = (e, n1, s1, l1, c1)"
    by (metis prod_cases5)
  have s1: "s1 = s \<or> s + 60 \<le> s1"
    using limiter_call_window [of n s l "c + d"] unfolding call by (simp add: window_def)
  from Cons.prems have "r = (e, n1, s1, l1, c1) \<or> r \<in> set (limiter_run (n1, s1, l1, c1) ds)"
    by (simp add: call Let_def del: limiter_call.simps)
  then show ?case
  proof
    assume "r = (e, n1, s1, l1, c1)"
    then show ?thesis using s1 by (simp add: window_def)
  next
    assume "r \<in> set (limiter_run (n1, s1, l1, c1) ds)"
    then have "window r = s1 \<or> s1 + 60 \<le> window r" by (rule Cons.IH)
    then show ?thesis using s1 by linarith
  qed
qed

lemma limiter_run_quota:
  "length (filter (\<lambda>r. fst r = None \<and> window r = p) (limiter_run (n, s, l, c) ds))
     \<le> (if p = s then 10 - n else 10)"
proof (induction ds arbitrary: n s l c)
  case Nil
  show ?case by simp
next
  case (Cons d ds)
  obtain e n1 s1 l1 c1 where call: "limiter_call (n, s, l, c + d) = (e, n1, s1, l1, c1)"
    by (metis prod_cases5)
  let ?rest = "limiter_run (n1, s1, l1, c1) ds"
  let ?P = "\<lambda>r. fst r = None \<and> window r = p"
  let ?k = "length (filter ?P ?rest)"
  have run: "limiter_run (n, s, l, c) (d # ds) = (e, n1, s1, l1, c1) # ?rest"
    by (simp add: call Let_def del: limiter_call.simps)
  have count: "length (filter ?P (limiter_run (n, s, l, c) (d # ds)))
                 = (if e = None \<and> s1 = p then Suc ?k else ?k)"
    unfolding run by (simp add: window_def)
  have IH: "?k \<le> (if p = s1 then 10 - n1 else 10)"
    by (rule Cons.IH)
  show ?case
  proof (cases "60 - (c + d - s) \<le> 0")
    case True
    then have vals: "e = None" "n1 = 1" "s1 = c + d"
      using call by (simp_all add: Let_def)
    show ?thesis
    proof (cases "p = s")
      case True
      have far: "s + 60 \<le> s1" using \<open>60 - (c + d - s) \<le> 0\<close> vals by simp
      have "\<not> ?P r" if "r \<in> set ?rest" for r
        using limiter_run_windows [OF that] far True by auto
      then have "?k = 0" by (simp add: filter_empty_conv)
      moreover have "s1 \<noteq> p" using far True by simp
      ultimately show ?thesis unfolding count by simp
    next
      case False
      then show ?thesis using IH vals unfolding count by (auto split: if_splits)
    qed
  next
    case False
    then have vals: "n1 = n + 1" "s1 = s" "e = None \<longleftrightarrow> n < 10"
      using call by (auto simp add: Let_def split: if_splits)
    show ?thesis using IH vals unfolding count by auto
  qed
qed

lemma limiter_run_spaced:
  "spaced (l # map started (filter (\<lambda>r. fst r = None) (limiter_run (n, s, l, c) ds)))"
proof (induction ds arbitrary: n s l c)
  case Nil
  show ?case by simp
next
  case (Cons d ds)
  obtain e n1 s1 l1 c1 where call: "limiter_call (n, s, l, c + d) = (e, n1, s1, l1, c1)"
    by (metis prod_cases5)
  have run: "limiter_run (n, s, l, c) (d # ds) = (e, n1, s1, l1, c1) # limiter_run (n1, s1, l1, c1) ds"
    by (simp add: call Let_def del: limiter_call.simps)
  have IH: "spaced (l1 # map started (filter (\<lambda>r. fst r = None) (limiter_run (n1, s1, l1, c1) ds)))"
    by (rule Cons.IH)
  show ?case
  proof (cases e)
    case None
    then have "l + 1 \<le> l1" using call by (auto simp add: Let_def split: if_splits)
    then show ?thesis using IH None unfolding run started_def by simp
  next
    case (Some a)
    then have "l1 = l" using call by (auto simp add: Let_def split: if_splits)
    then show ?thesis using IH Some unfolding run started_def by simp
  qed
qed

subsection \<open>The router and the event log\<close>

lemma raised_None: "raised r = None \<longleftrightarrow> succeeded r"
  by (simp add: raised_def succeeded_def split: sum.splits)

lemma raised_Some: "raised r = Some e \<longleftrightarrow> snd r = Inl e"
  by (simp add: raised_def split: sum.splits)

lemma generate_response_scrape:
  assumes "startswith (lower msg) ''scrape ''" and "strip (drop 7 msg) = url" and "url \<noteq> []"
  shows "generate_response env w msg =
           (case rate_limited_get_url_content env w url of
              (w1, Inl e) \<Rightarrow> (w1, Inl e)
            | (w1, Inr scraped_text) \<Rightarrow>
                if startswith scraped_text ''Error''
                   \<or> startswith scraped_text ''Scraping not permitted''
                then (w1, Inr scraped_text)
                else (w1, Inr (''Successfully scraped content from '' @ url @ '':<br><pre>''
                               @ preview scraped_text @ ''</pre>'')))"
  using assms by (simp add: generate_response_def Let_def eval_nat_numeral)

lemma generate_response_world:
  assumes "startswith (lower msg) ''scrape ''" and "strip (drop 7 msg) = url" and "url \<noteq> []"
  shows "fst (generate_response env w msg) = fst (rate_limited_get_url_content env w url)"
    and "raised (generate_response env w msg) = raised (rate_limited_get_url_content env w url)"
  unfolding generate_response_scrape [OF assms]
  by (simp_all add: raised_def split: prod.splits sum.splits)

lemma generate_response_no_scrape:
  "\<not> startswith (lower msg) ''scrape '' \<Longrightarrow> fst (generate_response env w msg) = w"
  by (simp add: generate_response_def split: option.splits)

lemma call_admitted:
  assumes "raised (rate_limited_get_url_content env w url) = None"
  shows "rate_limited_get_url_content env w url =
           (fst (get_url_content env (fst (limits_enter (log (Call url) w))) url),
            Inr (snd (get_url_content env (fst (limits_enter (log (Call url) w))) url)))"
  using assms
  by (simp add: rate_limited_get_url_content_def raised_def split: prod.splits sum.splits)

lemma limits_enter_events: "events (fst (limits_enter w)) = events w"
  by (simp add: limits_enter_def Let_def)

lemma politeness_delay_events:
  "events (politeness_delay w) = events w
   \<or> (\<exists>d. events (politeness_delay w) = events w @ [Sleep d])"
  by (simp add: politeness_delay_def sleep_def log_def Let_def)

lemma fetch_calls_append: "fetch_calls (xs @ ys) = fetch_calls xs @ fetch_calls ys"
  by (simp add: fetch_calls_def)

lemma http_gets_append: "http_gets (xs @ ys) = http_gets xs @ http_gets ys"
  by (simp add: http_gets_def)

lemma parses_append: "parses (xs @ ys) = parses xs @ parses ys"
  by (simp add: parses_def)

lemma politeness_delay_quiet:
  "fetch_calls (events (politeness_delay w)) = fetch_calls (events w)"
  "http_gets (events (politeness_delay w)) = http_gets (events w)"
  "parses (events (politeness_delay w)) = parses (events w)"
  using politeness_delay_events [of w]
  by (auto simp add: fetch_calls_def http_gets_def parses_def)

lemma get_url_content_events:
  "fetch_calls (events (fst (get_url_content env w url))) = fetch_calls (events w)"
  "http_gets (events (fst (get_url_content env w url))) = http_gets (events w) @ [url]"
  by (simp_all add: get_url_content_def log_def Let_def fetch_calls_append http_gets_append
        politeness_delay_quiet split: get_outcome.splits sum.splits,
      simp_all add: fetch_calls_def http_gets_def)

lemma call_events:
  "fetch_calls (events (fst (rate_limited_get_url_content env w url)))
     = fetch_calls (events w) @ [url]"
  "http_gets (events (fst (rate_limited_get_url_content env w url)))
     = (if succeeded (rate_limited_get_url_content env w url)
        then http_gets (events w) @ [url] else http_gets (events w))"
proof -
  let ?w1 = "fst (limits_enter (log (Call url) w))"
  have e: "events ?w1 = events w @ [Call url]"
    by (simp add: limits_enter_events log_def)
  have f: "fetch_calls (events ?w1) = fetch_calls (events w) @ [url]"
    and g: "http_gets (events ?w1) = http_gets (events w)"
    unfolding e by (simp_all add: fetch_calls_def http_gets_def)
  show "fetch_calls (events (fst (rate_limited_get_url_content env w url)))
     = fetch_calls (events w) @ [url]"
    using f get_url_content_events(1) [of env ?w1 url]
    by (auto simp add: rate_limited_get_url_content_def split: prod.splits sum.splits)
  show "http_gets (events (fst (rate_limited_get_url_content env w url)))
     = (if succeeded (rate_limited_get_url_content env w url)
        then http_gets (events w) @ [url] else http_gets (events w))"
    using g get_url_content_events(2) [of env ?w1 url]
    by (auto simp add: rate_limited_get_url_content_def succeeded_def split: prod.splits sum.splits)
qed

subsection \<open>The rate limiter over a sequence of calls\<close>

lemma length_serve: "length (serve env w calls) = length calls"
  by (induction calls arbitrary: w) (auto simp add: Let_def)

lemma serve_quota:
  "length (filter (\<lambda>r. succeeded r \<and> last_reset (fst r) = p) (serve env w calls)) \<le> 10"
proof -
  let ?f = "\<lambda>r. (raised r, view (fst r))"
  let ?P = "\<lambda>x. fst x = None \<and> window x = p"
  have "filter (\<lambda>r. succeeded r \<and> last_reset (fst r) = p) (serve env w calls)
          = filter (?P \<circ> ?f) (serve env w calls)"
    by (simp add: comp_def raised_None window_def view_def)
  then have "length (filter (\<lambda>r. succeeded r \<and> last_reset (fst r) = p) (serve env w calls))
          = length (filter ?P (map ?f (serve env w calls)))"
    by (simp add: filter_map)
  also have "\<dots> = length (filter ?P
       (limiter_run (num_calls w, last_reset w, last_request_time w, clock w) (map fst calls)))"
    using view_serve [of env w calls] by (simp add: view_def)
  also have "\<dots> \<le> 10"
    using limiter_run_quota [of p "num_calls w" "last_reset w" "last_request_time w" "clock w" "map fst calls"]
    by (simp split: if_splits)
  finally show ?thesis .
qed

lemma serve_spaced:
  "spaced (last_request_time w
           # map (\<lambda>r. last_request_time (fst r)) (filter succeeded (serve env w calls)))"
proof -
  let ?f = "\<lambda>r. (raised r, view (fst r))"
  have "map (\<lambda>r. last_request_time (fst r)) (filter succeeded (serve env w calls))
          = map (started \<circ> ?f) (filter ((\<lambda>x. fst x = None) \<circ> ?f) (serve env w calls))"
    by (simp add: comp_def raised_None started_def view_def)
  also have "\<dots> = map started (filter (\<lambda>x. fst x = None) (map ?f (serve env w calls)))"
    by (simp add: filter_map)
  also have "\<dots> = map started (filter (\<lambda>x. fst x = None)
       (limiter_run (num_calls w, last_reset w, last_request_time w, clock w) (map fst calls)))"
    using view_serve [of env w calls] by (simp add: view_def)
  finally show ?thesis
    using limiter_run_spaced [of "last_request_time w" "num_calls w" "last_reset w" "clock w" "map fst calls"]
    by simp
qed

lemma nth_view_serve:
  assumes "i < length calls"
  shows "(raised (serve env w calls ! i), view (fst (serve env w calls ! i)))
           = limiter_run (view w) (map fst calls) ! i"
proof -
  have "limiter_run (view w) (map fst calls) ! i
          = map (\<lambda>r. (raised r, view (fst r))) (serve env w calls) ! i"
    by (simp only: view_serve)
  also have "\<dots> = (raised (serve env w calls ! i), view (fst (serve env w calls ! i)))"
    using assms by (simp add: length_serve)
  finally show ?thesis by simp
qed

lemma call_below_quota:
  assumes "period_remaining w \<le> 0 \<or> num_calls w < calls_limit"
  shows "succeeded (rate_limited_get_url_content env w url)"
    and "clock (fst (rate_limited_get_url_content env w url))
           = max (clock w) (last_request_time w + 1)"
    and "last_request_time (fst (rate_limited_get_url_content env w url))
           = clock (fst (rate_limited_get_url_content env w url))"
proof -
  let ?r = "rate_limited_get_url_content env w url"
  have v: "(raised ?r, view (fst ?r)) = limiter_call (view w)" by (rule view_call)
  have q: "60 - (clock w - last_reset w) \<le> 0 \<or> num_calls w < 10"
    using assms by (simp add: period_remaining_def period_def calls_limit_def)
  have "raised ?r = None"
    using v q by (auto simp add: view_def Let_def split: if_splits)
  then show "succeeded ?r" by (simp add: raised_None)
  show "clock (fst ?r) = max (clock w) (last_request_time w + 1)"
    using v q by (auto simp add: view_def Let_def split: if_splits)
  show "last_request_time (fst ?r) = clock (fst ?r)"
    using v q by (auto simp add: view_def Let_def split: if_splits)
qed

lemma call_recorded:
  assumes "succeeded (rate_limited_get_url_content env w url)"
  shows "last_request_time (fst (rate_limited_get_url_content env w url))
           = clock (fst (rate_limited_get_url_content env w url))"
proof -
  let ?r = "rate_limited_get_url_content env w url"
  have v: "(raised ?r, view (fst ?r)) = limiter_call (view w)" by (rule view_call)
  have "raised ?r = None" using assms by (simp add: raised_None)
  then show ?thesis
    using v by (auto simp add: view_def Let_def split: if_splits)
qed

lemma serve_recorded:
  "r \<in> set (serve env w calls) \<Longrightarrow> succeeded r
     \<Longrightarrow> last_request_time (fst r) = clock (fst r)"
proof (induction calls arbitrary: w)
  case Nil
  then show ?case by simp
next
  case (Cons a calls)
  obtain d url where a: "a = (d, url)" by (cases a)
  let ?r = "rate_limited_get_url_content env (tick d w) url"
  from Cons.prems(1) have "r = ?r \<or> r \<in> set (serve env (fst ?r) calls)"
    by (simp add: a Let_def)
  then show ?case
  proof
    assume "r = ?r"
    then show ?thesis using Cons.prems(2) call_recorded [of env "tick d w" url] by simp
  next
    assume "r \<in> set (serve env (fst ?r) calls)"
    then show ?thesis using Cons.prems(2) by (rule Cons.IH)
  qed
qed

lemma serve_periods:
  assumes "r \<in> set (serve env w calls)"
  shows "last_reset (fst r) = last_reset w \<or> last_reset w + 60 \<le> last_reset (fst r)"
proof -
  let ?f = "\<lambda>r. (raised r, view (fst r))"
  have "set (map ?f (serve env w calls)) = ?f ` set (serve env w calls)"
    by (rule set_map)
  then have "set (limiter_run (view w) (map fst calls)) = ?f ` set (serve env w calls)"
    by (simp only: view_serve)
  then have "?f r \<in> set (limiter_run (view w) (map fst calls))"
    using assms by blast
  then have "window (?f r) = last_reset w \<or> last_reset w + 60 \<le> window (?f r)"
    unfolding view_def by (rule limiter_run_windows)
  then show ?thesis by (simp add: window_def view_def)
qed

lemma serve_periods_apart:
  assumes "i < j" and "j < length calls"
  shows "last_reset (fst (serve env w calls ! j)) = last_reset (fst (serve env w calls ! i))
         \<or> last_reset (fst (serve env w calls ! i)) + 60
             \<le> last_reset (fst (serve env w calls ! j))"
  using assms
proof (induction calls arbitrary: w i j)
  case Nil
  then show ?case by simp
next
  case (Cons a calls)
  obtain d url where a: "a = (d, url)" by (cases a)
  let ?r = "rate_limited_get_url_content env (tick d w) url"
  obtain j' where j: "j = Suc j'" using Cons.prems(1) by (cases j) simp_all
  have s: "serve env w (a # calls) = ?r # serve env (fst ?r) calls" by (simp add: a Let_def)
  have lj: "j' < length calls" using Cons.prems(2) j by simp
  show ?case
  proof (cases i)
    case 0
    have "serve env (fst ?r) calls ! j' \<in> set (serve env (fst ?r) calls)"
      using lj by (simp add: length_serve)
    then show ?thesis unfolding s j 0 using serve_periods by simp
  next
    case (Suc i')
    then have "i' < j'" using Cons.prems(1) j by simp
    then show ?thesis unfolding s j Suc using Cons.IH [OF _ lj] by simp
  qed
qed

lemma serve_spaced_clock:
  "spaced (last_request_time w
           # map (\<lambda>r. clock (fst r)) (filter succeeded (serve env w calls)))"
proof -
  have "clock (fst r) = last_request_time (fst r)"
    if "r \<in> set (filter succeeded (serve env w calls))" for r
    using that serve_recorded [of r env w calls] by simp
  then have eq: "map (\<lambda>r. clock (fst r)) (filter succeeded (serve env w calls))
          = map (\<lambda>r. last_request_time (fst r)) (filter succeeded (serve env w calls))"
    by (intro map_cong) simp_all
  show ?thesis unfolding eq by (rule serve_spaced)
qed

text \<open>
  Claim C1, as far as the code has it by design. The decorator counts the calls in fixed
  periods of 60 seconds (\<open>last_reset\<close> is the start of the current one; a new one begins
  with the first call made 60 seconds or more after that start), with a quota of ten to
  a period. A call made when the period is over, or when fewer than ten calls are counted
  in it, is not refused: it returns a string, after waiting until one second past the
  time the call before was let through and no longer, and the time that line 79 records
  for it is the clock at that moment. In every sequence of calls: at most ten of the calls
  counted in one period return a string; the period of a later call is that of an earlier
  one or begins 60 seconds or more after it; and the times at which the calls that return
  a string are let through are at least one second apart, the first of them one second
  after the recorded time found. What a call does when ten calls are already counted in a
  period that is still running is no part of this statement.
\<close>

theorem rate_limit_fixed_window:
  "calls_limit = 10 \<and> period = 60
   \<and> (period_remaining w \<le> 0 \<or> num_calls w < calls_limit \<longrightarrow>
        succeeded (rate_limited_get_url_content env w url)
        \<and> clock (fst (rate_limited_get_url_content env w url))
            = max (clock w) (last_request_time w + 1)
        \<and> last_request_time (fst (rate_limited_get_url_content env w url))
            = clock (fst (rate_limited_get_url_content env w url)))
   \<and> (\<forall>p. length (filter (\<lambda>r. succeeded r \<and> last_reset (fst r) = p) (serve env w calls))
            \<le> calls_limit)
   \<and> (\<forall>r \<in> set (serve env w calls).
         last_reset (fst r) = last_reset w \<or> last_reset w + period \<le> last_reset (fst r))
   \<and> (\<forall>i j. i < j \<and> j < length calls \<longrightarrow>
         last_reset (fst (serve env w calls ! j)) = last_reset (fst (serve env w calls ! i))
         \<or> last_reset (fst (serve env w calls ! i)) + period
             \<le> last_reset (fst (serve env w calls ! j)))
   \<and> (\<forall>r \<in> set (serve env w calls).
         succeeded r \<longrightarrow> last_request_time (fst r) = clock (fst r))
   \<and> spaced (last_request_time w
             # map (\<lambda>r. clock (fst r)) (filter succeeded (serve env w calls)))"
proof -
  have 1: "period_remaining w \<le> 0 \<or> num_calls w < calls_limit \<longrightarrow>
        succeeded (rate_limited_get_url_content env w url)
        \<and> clock (fst (rate_limited_get_url_content env w url))
            = max (clock w) (last_request_time w + 1)
        \<and> last_request_time (fst (rate_limited_get_url_content env w url))
            = clock (fst (rate_limited_get_url_content env w url))"
    using call_below_quota [of w env url] by simp
  have 2: "\<forall>p. length (filter (\<lambda>r. succeeded r \<and> last_reset (fst r) = p) (serve env w calls))
            \<le> calls_limit"
    by (simp add: serve_quota calls_limit_def)
  have 3: "\<forall>r \<in> set (serve env w calls).
         last_reset (fst r) = last_reset w \<or> last_reset w + period \<le> last_reset (fst r)"
    using serve_periods [of _ env w calls] by (simp add: period_def)
  have 4: "\<forall>i j. i < j \<and> j < length calls \<longrightarrow>
         last_reset (fst (serve env w calls ! j)) = last_reset (fst (serve env w calls ! i))
         \<or> last_reset (fst (serve env w calls ! i)) + period
             \<le> last_reset (fst (serve env w calls ! j))"
    using serve_periods_apart [of _ _ calls env w] by (simp add: period_def)
  have 5: "\<forall>r \<in> set (serve env w calls).
         succeeded r \<longrightarrow> last_request_time (fst r) = clock (fst r)"
    using serve_recorded [of _ env w calls] by simp
  have 6: "calls_limit = 10 \<and> period = 60" by (simp add: calls_limit_def period_def)
  show ?thesis using 1 2 3 4 5 6 serve_spaced_clock [of w env calls] by blast
qed

theorem rate_limit_fixed_window_witness:
  "num_calls world0 < calls_limit
   \<and> succeeded (rate_limited_get_url_content sample_env world0 ''http://example.com'')
   \<and> clock (fst (rate_limited_get_url_content sample_env world0 ''http://example.com'')) = 1
   \<and> length (filter (\<lambda>r. succeeded r \<and> last_reset (fst r) = 0)
               (serve sample_env world0 (replicate 11 (0, ''http://example.com'')))) \<le> 10
   \<and> spaced (0 # map (\<lambda>r. clock (fst r))
                   (filter succeeded
                      (serve sample_env world0 (replicate 11 (0, ''http://example.com'')))))"
proof -
  have h: "num_calls world0 < calls_limit"
    by (simp add: calls_limit_def world0_def)
  have l: "last_request_time world0 = 0" "clock world0 = 0" by (simp_all add: world0_def)
  show ?thesis
    using h rate_limit_fixed_window [of world0 sample_env "''http://example.com''"
        "replicate 11 (0, ''http://example.com'')"]
    by (simp add: l)
qed

text \<open>
  The claim as the specification states it fails twice. Not every call completes: of
  eleven calls with no pause between them, the eleventh raises \<^verbatim>\<open>RateLimitException\<close> with
  50 seconds of the period left. The quota is not that of a rolling window: after a first
  call at time 50, nine more without pause and one a second later, the period is renewed
  at time 60, so eleven calls return a string with start times 50 to 60, all within ten
  seconds.
\<close>

theorem eleventh_call_raises:
  "snd (serve sample_env world0 (replicate 11 (0, ''http://example.com'')) ! 10)
     = Inl (RateLimitException 50)
   \<and> map (\<lambda>r. (succeeded r, last_request_time (fst r)))
       (serve sample_env world0
          ((50, ''http://example.com'') # replicate 9 (0, ''http://example.com'')
           @ [(1, ''http://example.com'')]))
     = [(True, 50), (True, 51), (True, 52), (True, 53), (True, 54), (True, 55), (True, 56),
        (True, 57), (True, 58), (True, 59), (True, 60)]"
proof -
  let ?u = "''http://example.com''"
  have "(raised (serve sample_env world0 (replicate 11 (0, ?u)) ! 10),
         view (fst (serve sample_env world0 (replicate 11 (0, ?u)) ! 10)))
          = limiter_run (view world0) (map fst (replicate 11 (0::real, ?u))) ! 10"
    by (rule nth_view_serve) simp
  also have "\<dots> = (Some (RateLimitException 50), (11, 0, 10, 10))"
    by (simp add: view_def world0_def numeral_eq_Suc)
  finally have first: "snd (serve sample_env world0 (replicate 11 (0, ?u)) ! 10)
     = Inl (RateLimitException 50)"
    by (simp add: raised_Some)
  let ?calls = "(50, ?u) # replicate 9 (0, ?u) @ [(1, ?u)]"
  have "map (\<lambda>r. (succeeded r, last_request_time (fst r))) (serve sample_env world0 ?calls)
          = map ((\<lambda>x. (fst x = None, started x)) \<circ> (\<lambda>r. (raised r, view (fst r))))
              (serve sample_env world0 ?calls)"
    by (simp add: comp_def raised_None started_def view_def)
  also have "\<dots> = map (\<lambda>x. (fst x = None, started x))
                      (limiter_run (view world0) (map fst ?calls))"
    by (simp only: map_map [symmetric] view_serve)
  also have "\<dots> = [(True, 50), (True, 51), (True, 52), (True, 53), (True, 54), (True, 55),
        (True, 56), (True, 57), (True, 58), (True, 59), (True, 60)]"
    by (simp add: view_def world0_def numeral_eq_Suc started_def)
  finally show ?thesis using first by simp
qed

subsection \<open>The router and the fetcher\<close>

lemma length_chat: "length (chat env w msgs) = length msgs"
  by (induction msgs arbitrary: w) (auto simp add: Let_def)

lemma view_chat_scrape:
  assumes "startswith (lower msg) ''scrape ''" and "strip (drop 7 msg) = url" and "url \<noteq> []"
  shows "map (\<lambda>r. (raised r, view (fst r))) (chat env w (map (\<lambda>d. (d, msg)) ds))
           = limiter_run (view w) ds"
proof (induction ds arbitrary: w)
  case Nil
  show ?case by simp
next
  case (Cons d ds)
  let ?r = "generate_response env (tick d w) msg"
  have v: "view w = (num_calls w, last_reset w, last_request_time w, clock w)" by (simp add: view_def)
  have c: "limiter_call (num_calls w, last_reset w, last_request_time w, clock w + d)
             = (raised ?r, view (fst ?r))"
    using view_call [of env "tick d w" url] generate_response_world [OF assms, of env "tick d w"]
    by (simp only: view_tick)
  show ?case
    using Cons.IH [of "fst ?r"]
    by (simp add: v c Let_def del: limiter_call.simps)
qed

text \<open>
  Claim C2 at a failing input. Eleven messages \<^verbatim>\<open>scrape http://example.com\<close> with no pause
  between them: \<open>generate_response\<close> answers the first ten with a string, and the eleventh
  call leaves it with \<^verbatim>\<open>RateLimitException\<close>. The decorator raises before the body of
  \<open>rate_limited_get_url_content\<close> is entered, so the \<^verbatim>\<open>try\<close> of lines 75 to 97 does not see
  the exception, and \<open>generate_response\<close> has no handler of its own.
\<close>

theorem eleventh_scrape_raises:
  "snd (chat sample_env world0 (replicate 11 (0, ''scrape http://example.com'')) ! 10)
     = Inl (RateLimitException 50)"
proof -
  let ?msg = "''scrape http://example.com''"
  let ?run = "chat sample_env world0 (replicate 11 (0, ?msg))"
  have a: "startswith (lower ?msg) ''scrape ''" by code_simp
  have b: "strip (drop 7 ?msg) = ''http://example.com''" by code_simp
  have m: "replicate 11 (0::real, ?msg) = map (\<lambda>d. (d, ?msg)) (replicate 11 0)" by simp
  have "(raised (?run ! 10), view (fst (?run ! 10)))
          = map (\<lambda>r. (raised r, view (fst r))) ?run ! 10"
    by (simp add: length_chat)
  also have "\<dots> = limiter_run (view world0) (replicate 11 0) ! 10"
    unfolding m by (subst view_chat_scrape [OF a b]) simp_all
  also have "\<dots> = (Some (RateLimitException 50), (11, 0, 10, 10))"
    by (simp add: view_def world0_def numeral_eq_Suc)
  finally show ?thesis by (simp add: raised_Some)
qed

lemma limits_enter_admits:
  "raised (rate_limited_get_url_content env w url) = None
     \<longleftrightarrow> snd (limits_enter (log (Call url) w)) = Inr ()"
  by (simp add: rate_limited_get_url_content_def raised_def split: prod.splits sum.splits)

lemma parses_politeness: "parses (events (log (Get url) (politeness_delay w))) = parses (events w)"
  using politeness_delay_quiet(3) [of w] by (simp add: log_def parses_def)

text \<open>
  Claim C9, as the code has it. When the rate limiter admits the call, \<^verbatim>\<open>requests.get\<close>
  returns a response whose status code is not in 400 to 599 (so that
  \<^verbatim>\<open>raise_for_status\<close> passes) and the body contains \<^verbatim>\<open>Disallow\<close> anywhere, the fetcher returns
  exactly \<^verbatim>\<open>Scraping not permitted by website.\<close> and the HTML parser is not called.
\<close>

theorem disallow_sentinel:
  assumes "succeeded (rate_limited_get_url_content env w url)"
    and "requests_get env url = Returns r"
    and "status_code r < 400 \<or> 600 \<le> status_code r"
    and "contains ''Disallow'' (body r)"
  shows "snd (rate_limited_get_url_content env w url) = Inr ''Scraping not permitted by website.''
         \<and> parses (events (fst (rate_limited_get_url_content env w url))) = parses (events w)"
proof -
  let ?w1 = "fst (limits_enter (log (Call url) w))"
  have adm: "raised (rate_limited_get_url_content env w url) = None"
    using assms(1) by (simp add: raised_None)
  have e: "parses (events ?w1) = parses (events w)"
    by (simp add: limits_enter_events log_def parses_def)
  have g: "get_url_content env ?w1 url
             = (log (Get url) (politeness_delay ?w1), ''Scraping not permitted by website.'')"
    using assms(2-4) by (auto simp add: get_url_content_def Let_def)
  show ?thesis
    unfolding call_admitted [OF adm] g using e by (simp add: parses_politeness)
qed

lemma sample_gone:
  "rate_limited_get_url_content sample_env world0 ''http://example.com/gone''
     = (\<lparr>num_calls = 1, last_reset = 0, last_request_time = 1, clock = 1,
         events = [Call ''http://example.com/gone'', Sleep 1, Get ''http://example.com/gone'']\<rparr>,
        Inr ''Error accessing URL: 404 Client Error: Not Found for url: http://example.com/gone'')"
proof -
  have n: "str_nat 404 = ''404''" by code_simp
  show ?thesis
    by (simp add: fetch_defs world0_def sample_env_def sample_site_def long_label_url_def page_def Let_def
        http_error_msg_def n del: str_nat.simps)
qed

text \<open>
  The claim for every HTTP response fails on an error page: a 404 response whose body
  contains \<^verbatim>\<open>Disallow\<close> is stopped by \<^verbatim>\<open>raise_for_status\<close> in line 83, before line 84
  looks at the body, and the fetcher returns the text of the HTTP error.
\<close>

theorem disallow_in_error_page:
  "requests_get sample_env ''http://example.com/gone''
     = Returns \<lparr>status_code = 404, reason = ''Not Found'', resp_url = ''http://example.com/gone'',
                body = ''Disallowed or missing''\<rparr>
   \<and> contains ''Disallow'' ''Disallowed or missing''
   \<and> snd (rate_limited_get_url_content sample_env world0 ''http://example.com/gone'')
       = Inr ''Error accessing URL: 404 Client Error: Not Found for url: http://example.com/gone''"
proof -
  have c: "contains ''Disallow'' ''Disallowed or missing''" by code_simp
  have g: "requests_get sample_env ''http://example.com/gone''
     = Returns \<lparr>status_code = 404, reason = ''Not Found'', resp_url = ''http://example.com/gone'',
                body = ''Disallowed or missing''\<rparr>"
    by (simp add: sample_env_def sample_site_def long_label_url_def page_def)
  show ?thesis using c g sample_gone by (simp del: contains.simps)
qed

lemma sample_robots:
  "succeeded (rate_limited_get_url_content sample_env world0 ''http://example.com/robots.txt'')"
proof -
  have "raised (rate_limited_get_url_content sample_env world0 ''http://example.com/robots.txt'') = None"
    unfolding limits_enter_admits
    by (simp add: limits_enter_def period_remaining_def period_def calls_limit_def log_def world0_def)
  then show ?thesis by (simp add: raised_None)
qed

theorem disallow_sentinel_witness:
  "snd (rate_limited_get_url_content sample_env world0 ''http://example.com/robots.txt'')
     = Inr ''Scraping not permitted by website.''
   \<and> parses (events (fst (rate_limited_get_url_content sample_env world0 ''http://example.com/robots.txt'')))
       = parses (events world0)"
proof -
  let ?r = "\<lparr>status_code = 200, reason = ''OK'', resp_url = ''http://example.com/robots.txt'',
             body = ''User-agent: *'' @ [CHR 0x0A] @ ''Disallow: /private''\<rparr>"
  have g: "requests_get sample_env ''http://example.com/robots.txt'' = Returns ?r"
    by (simp add: sample_env_def sample_site_def long_label_url_def page_def)
  have s: "status_code ?r < 400 \<or> 600 \<le> status_code ?r" by simp
  have c: "contains ''Disallow'' (body ?r)" by code_simp
  show ?thesis by (rule disallow_sentinel [OF sample_robots g s c])
qed

lemma world0_admits: "succeeded (rate_limited_get_url_content env world0 url)"
proof -
  have "raised (rate_limited_get_url_content env world0 url) = None"
    unfolding limits_enter_admits
    by (simp add: limits_enter_def period_remaining_def period_def calls_limit_def log_def world0_def)
  then show ?thesis by (simp add: raised_None)
qed

lemma call_text:
  assumes "succeeded (rate_limited_get_url_content env w url)"
  shows "snd (rate_limited_get_url_content env w url)
           = Inr (snd (get_url_content env (fst (limits_enter (log (Call url) w))) url))"
  using call_admitted [of env w url] assms by (simp add: raised_None)

lemma get_url_content_text:
  "snd (get_url_content env w url) =
     (case requests_get env url of
        RaisesRequestException m \<Rightarrow> ''Error accessing URL: '' @ m
      | RaisesOther m \<Rightarrow> ''An unexpected error occurred during scraping: '' @ m
      | Returns r \<Rightarrow>
          if 400 \<le> status_code r \<and> status_code r < 600
          then ''Error accessing URL: '' @ http_error_msg r
          else if contains ''Disallow'' (body r) then ''Scraping not permitted by website.''
          else (case soup_text env (body r) of
                  Inl m \<Rightarrow> ''An unexpected error occurred during scraping: '' @ m
                | Inr t \<Rightarrow> clean_text t))"
  by (simp add: get_url_content_def Let_def split: get_outcome.splits sum.splits)

lemma scrape_result:
  assumes "startswith (lower msg) ''scrape ''" and "strip (drop 7 msg) = url" and "url \<noteq> []"
    and "snd (rate_limited_get_url_content env w url) = Inr t"
  shows "snd (generate_response env w msg) =
           (if startswith t ''Error'' \<or> startswith t ''Scraping not permitted'' then Inr t
            else Inr (''Successfully scraped content from '' @ url @ '':<br><pre>''
                      @ preview t @ ''</pre>''))"
proof -
  obtain w1 where r: "rate_limited_get_url_content env w url = (w1, Inr t)"
    using assms(4) by (cases "rate_limited_get_url_content env w url") simp
  show ?thesis
    unfolding generate_response_scrape [OF assms(1-3)] r by simp
qed

text \<open>
  Claim C8. For a scrape command whose fetch returns a text \<open>t\<close> that starts with neither
  \<^verbatim>\<open>Error\<close> nor \<^verbatim>\<open>Scraping not permitted\<close>, the response is the success message around a
  preview that is the first 500 characters of \<open>t\<close> followed by \<^verbatim>\<open>...\<close> when \<open>t\<close> is longer
  than 500, and \<open>t\<close> itself, with no marker, when it is not.
\<close>

theorem preview_truncation:
  assumes "startswith (lower msg) ''scrape ''" and "strip (drop 7 msg) = url" and "url \<noteq> []"
    and "snd (rate_limited_get_url_content env w url) = Inr t"
    and "\<not> startswith t ''Error''" and "\<not> startswith t ''Scraping not permitted''"
  shows "snd (generate_response env w msg) =
           Inr (''Successfully scraped content from '' @ url @ '':<br><pre>''
                @ (if 500 < length t then take 500 t @ ''...'' else t) @ ''</pre>'')"
  unfolding scrape_result [OF assms(1-4)] using assms(5,6) by (simp add: preview_def)

lemma sample_long:
  "snd (rate_limited_get_url_content sample_env world0 ''http://example.com/long'')
     = Inr (replicate 501 (CHR ''x''))"
proof -
  have c: "clean_text (replicate 501 (CHR ''x'')) = replicate 501 (CHR ''x'')" by code_simp
  have d: "contains ''Disallow'' (replicate 501 (CHR ''x'')) = False" by code_simp
  show ?thesis
    unfolding call_text [OF world0_admits] get_url_content_text
    by (simp add: sample_env_def sample_site_def long_label_url_def page_def sample_soup_def c d
          del: contains.simps)
qed

lemma sample_short:
  "snd (rate_limited_get_url_content sample_env world0 ''http://example.com'')
     = Inr ''Example Domain''"
proof -
  have c: "clean_text ''Example Domain'' = ''Example Domain''" by code_simp
  have d: "contains ''Disallow'' ''Example Domain'' = False" by code_simp
  show ?thesis
    unfolding call_text [OF world0_admits] get_url_content_text
    by (simp add: sample_env_def sample_site_def long_label_url_def page_def sample_soup_def c d
          del: contains.simps)
qed

theorem preview_truncation_witness:
  "snd (generate_response sample_env world0 ''scrape http://example.com/long'') =
     Inr (''Successfully scraped content from http://example.com/long:<br><pre>''
          @ replicate 500 (CHR ''x'') @ ''...'' @ ''</pre>'')
   \<and> snd (generate_response sample_env world0 ''scrape http://example.com'') =
     Inr ''Successfully scraped content from http://example.com:<br><pre>Example Domain</pre>''"
proof -
  have a1: "startswith (lower ''scrape http://example.com/long'') ''scrape ''" by code_simp
  have b1: "strip (drop 7 ''scrape http://example.com/long'') = ''http://example.com/long''"
    by code_simp
  have e1: "\<not> startswith (replicate 501 (CHR ''x'')) ''Error''" by code_simp
  have f1: "\<not> startswith (replicate 501 (CHR ''x'')) ''Scraping not permitted''" by code_simp
  have t1: "take 500 (replicate 501 (CHR ''x'')) = replicate 500 (CHR ''x'')" by simp
  have a2: "startswith (lower ''scrape http://example.com'') ''scrape ''" by code_simp
  have b2: "strip (drop 7 ''scrape http://example.com'') = ''http://example.com''" by code_simp
  have e2: "\<not> startswith ''Example Domain'' ''Error''" by code_simp
  have f2: "\<not> startswith ''Example Domain'' ''Scraping not permitted''" by code_simp
  have n: "''http://example.com/long'' \<noteq> []" "''http://example.com'' \<noteq> []" by simp_all
  show ?thesis
    using preview_truncation [OF a1 b1 n(1) sample_long e1 f1]
      preview_truncation [OF a2 b2 n(2) sample_short e2 f2]
    by (simp add: t1)
qed

text \<open>
  Claim C10. The router tells a failure from a page by the first characters of the
  returned string. When the fetch succeeds (the limiter admits the call, the status is
  no error, the body has no \<^verbatim>\<open>Disallow\<close>, the parser returns) and the extracted text begins
  with \<^verbatim>\<open>Error\<close> or with \<^verbatim>\<open>Scraping not permitted\<close>, \<open>generate_response\<close> returns that text
  as it is, with no success message and no preview.
\<close>

theorem page_text_taken_for_error:
  assumes "startswith (lower msg) ''scrape ''" and "strip (drop 7 msg) = url" and "url \<noteq> []"
    and "succeeded (rate_limited_get_url_content env w url)"
    and "requests_get env url = Returns r"
    and "status_code r < 400 \<or> 600 \<le> status_code r"
    and "\<not> contains ''Disallow'' (body r)"
    and "soup_text env (body r) = Inr raw"
    and "startswith (clean_text raw) ''Error''
         \<or> startswith (clean_text raw) ''Scraping not permitted''"
  shows "snd (rate_limited_get_url_content env w url) = Inr (clean_text raw)
         \<and> snd (generate_response env w msg) = Inr (clean_text raw)"
proof -
  have t: "snd (rate_limited_get_url_content env w url) = Inr (clean_text raw)"
    unfolding call_text [OF assms(4)] get_url_content_text
    using assms(5-8) by auto
  show ?thesis
    using t scrape_result [OF assms(1-3) t] assms(9) by auto
qed

theorem page_text_taken_for_error_witness:
  "snd (rate_limited_get_url_content sample_env world0 ''http://example.com/status'')
     = Inr ''Error budget: 3 of 5 left''
   \<and> snd (generate_response sample_env world0 ''scrape http://example.com/status'')
     = Inr ''Error budget: 3 of 5 left''"
proof -
  let ?r = "\<lparr>status_code = 200, reason = ''OK'', resp_url = ''http://example.com/status'',
             body = ''Error budget: 3 of 5 left''\<rparr>"
  have a: "startswith (lower ''scrape http://example.com/status'') ''scrape ''" by code_simp
  have b: "strip (drop 7 ''scrape http://example.com/status'') = ''http://example.com/status''"
    by code_simp
  have n: "''http://example.com/status'' \<noteq> []" by simp
  have g: "requests_get sample_env ''http://example.com/status'' = Returns ?r"
    by (simp add: sample_env_def sample_site_def long_label_url_def page_def)
  have s: "status_code ?r < 400 \<or> 600 \<le> status_code ?r" by simp
  have d: "\<not> contains ''Disallow'' (body ?r)" by code_simp
  have p: "soup_text sample_env (body ?r) = Inr ''Error budget: 3 of 5 left''"
    by (simp add: sample_env_def sample_soup_def)
  have c: "clean_text ''Error budget: 3 of 5 left'' = ''Error budget: 3 of 5 left''" by code_simp
  have e: "startswith (clean_text ''Error budget: 3 of 5 left'') ''Error''
           \<or> startswith (clean_text ''Error budget: 3 of 5 left'') ''Scraping not permitted''"
    by code_simp
  show ?thesis
    using page_text_taken_for_error [OF a b n world0_admits g s d p e] by (simp only: c)
qed

lemma internal_error_wrapped:
  assumes "startswith (lower msg) ''scrape ''" and "strip (drop 7 msg) = url" and "url \<noteq> []"
    and "snd (rate_limited_get_url_content env w url)
           = Inr (''An unexpected error occurred during scraping: '' @ m)"
  shows "snd (generate_response env w msg) =
           Inr (''Successfully scraped content from '' @ url @ '':<br><pre>''
                @ preview (''An unexpected error occurred during scraping: '' @ m) @ ''</pre>'')"
  unfolding scrape_result [OF assms] by (simp add: startswith_def)

text \<open>
  Claim C4 at its failing inputs. Whenever lines 76 to 92 raise something that is not a
  \<^verbatim>\<open>RequestException\<close>, be it in \<^verbatim>\<open>requests.get\<close> or in the parser, line 97 returns a text
  that begins with \<^verbatim>\<open>An unexpected error\<close>; the test of line 123 looks for \<^verbatim>\<open>Error\<close> and
  \<^verbatim>\<open>Scraping not permitted\<close> only, so the router puts the error text, cut to 500
  characters, into the success message.
\<close>

theorem unexpected_error_shown_as_success:
  assumes "startswith (lower msg) ''scrape ''" and "strip (drop 7 msg) = url" and "url \<noteq> []"
    and "succeeded (rate_limited_get_url_content env w url)"
    and "requests_get env url = RaisesOther m
         \<or> (\<exists>r. requests_get env url = Returns r
                 \<and> (status_code r < 400 \<or> 600 \<le> status_code r)
                 \<and> contains ''Disallow'' (body r) = False
                 \<and> soup_text env (body r) = Inl m)"
  shows "snd (rate_limited_get_url_content env w url)
           = Inr (''An unexpected error occurred during scraping: '' @ m)
         \<and> snd (generate_response env w msg)
           = Inr (''Successfully scraped content from '' @ url @ '':<br><pre>''
                  @ take 500 (''An unexpected error occurred during scraping: '' @ m)
                  @ (if 500 < length (''An unexpected error occurred during scraping: '' @ m)
                     then ''...'' else [])
                  @ ''</pre>'')"
proof -
  have t: "snd (rate_limited_get_url_content env w url)
             = Inr (''An unexpected error occurred during scraping: '' @ m)"
    unfolding call_text [OF assms(4)] get_url_content_text
    using assms(5) by auto
  show ?thesis
    using t internal_error_wrapped [OF assms(1-3) t] by (simp add: preview_def)
qed

theorem unexpected_error_shown_as_success_witness:
  "snd (rate_limited_get_url_content sample_env world0 long_label_url)
     = Inr (''An unexpected error occurred during scraping: ''
            @ (''Failed to parse: '' @ [CHR 0x27] @ long_label_host @ [CHR 0x27]
               @ '', label empty or too long''))
   \<and> snd (generate_response sample_env world0 (''scrape '' @ long_label_url))
     = Inr (''Successfully scraped content from '' @ long_label_url @ '':<br><pre>''
            @ (''An unexpected error occurred during scraping: ''
               @ (''Failed to parse: '' @ [CHR 0x27] @ long_label_host @ [CHR 0x27]
                  @ '', label empty or too long''))
            @ ''</pre>'')"
proof -
  let ?m = "''Failed to parse: '' @ [CHR 0x27] @ long_label_host @ [CHR 0x27]
            @ '', label empty or too long''"
  let ?t = "''An unexpected error occurred during scraping: '' @ ?m"
  have a: "startswith (lower (''scrape '' @ long_label_url)) ''scrape ''" by code_simp
  have b: "strip (drop 7 (''scrape '' @ long_label_url)) = long_label_url" by code_simp
  have n: "long_label_url \<noteq> []" by (simp add: long_label_url_def)
  have g: "requests_get sample_env long_label_url = RaisesOther ?m
           \<or> (\<exists>r. requests_get sample_env long_label_url = Returns r
                   \<and> (status_code r < 400 \<or> 600 \<le> status_code r)
                   \<and> contains ''Disallow'' (body r) = False
                   \<and> soup_text sample_env (body r) = Inl ?m)"
    by (simp add: sample_env_def sample_site_def long_label_url_def)
  have l: "\<not> 500 < length ?t" by (simp add: long_label_host_def)
  have e: "take 500 ?t @ (if 500 < length ?t then ''...'' else []) @ r = ?t @ r" for r
    using l by simp
  show ?thesis
    by (rule unexpected_error_shown_as_success [OF a b n world0_admits g, unfolded e])
qed

text \<open>
  Claim C5, as the code has it. When the lowercased input, not trimmed, starts with the
  seven characters \<^verbatim>\<open>scrape\<close> and one blank: if what follows them is empty once trimmed, the
  response is \<^verbatim>\<open>Please provide a URL to scrape.\<close> and the world is unchanged; otherwise
  \<open>rate_limited_get_url_content\<close> is called exactly once, with the trimmed rest as the URL,
  and there is exactly one HTTP GET, for that URL, when the call returns a string and none
  when it raises.
\<close>

theorem scrape_command:
  assumes "startswith (lower msg) ''scrape ''"
  shows "(strip (drop 7 msg) = [] \<longrightarrow>
            generate_response env w msg = (w, Inr ''Please provide a URL to scrape.''))
         \<and> (strip (drop 7 msg) \<noteq> [] \<longrightarrow>
              fetch_calls (events (fst (generate_response env w msg)))
                = fetch_calls (events w) @ [strip (drop 7 msg)]
              \<and> http_gets (events (fst (generate_response env w msg)))
                = (if succeeded (generate_response env w msg)
                   then http_gets (events w) @ [strip (drop 7 msg)] else http_gets (events w)))"
proof (cases "strip (drop 7 msg) = []")
  case True
  then show ?thesis using assms by (simp add: generate_response_def Let_def eval_nat_numeral)
next
  case False
  have s: "succeeded (generate_response env w msg)
             = succeeded (rate_limited_get_url_content env w (strip (drop 7 msg)))"
    using generate_response_world(2) [OF assms refl False, of env w]
    by (simp add: raised_None [symmetric])
  show ?thesis
    using False
    by (simp add: generate_response_world(1) [OF assms refl False] s call_events)
qed

theorem scrape_command_witness:
  "generate_response sample_env world0 ''Scrape   '' = (world0, Inr ''Please provide a URL to scrape.'')
   \<and> generate_response sample_env world0 (''scrape '' @ [CHR 0xA0, CHR 0x85])
       = (world0, Inr ''Please provide a URL to scrape.'')
   \<and> fetch_calls (events (fst (generate_response sample_env world0 ''SCRAPE http://example.com '')))
       = [''http://example.com'']
   \<and> http_gets (events (fst (generate_response sample_env world0 ''SCRAPE http://example.com '')))
       = [''http://example.com'']"
proof -
  have a1: "startswith (lower ''Scrape   '') ''scrape ''" by code_simp
  have b1: "strip (drop 7 ''Scrape   '') = []" by code_simp
  have a2: "startswith (lower ''SCRAPE http://example.com '') ''scrape ''" by code_simp
  have b2: "strip (drop 7 ''SCRAPE http://example.com '') = ''http://example.com''" by code_simp
  have s: "succeeded (generate_response sample_env world0 ''SCRAPE http://example.com '')"
    using generate_response_world(2) [OF a2 b2, of sample_env world0] world0_admits [of sample_env]
    by (simp add: raised_None [symmetric])
  have a3: "startswith (lower (''scrape '' @ [CHR 0xA0, CHR 0x85])) ''scrape ''" by code_simp
  have b3: "strip (drop 7 (''scrape '' @ [CHR 0xA0, CHR 0x85])) = []" by code_simp
  have e: "events world0 = []" by (simp add: world0_def)
  show ?thesis
    using scrape_command [OF a1, of sample_env world0, unfolded b1]
      scrape_command [OF a2, of sample_env world0, unfolded b2]
      scrape_command [OF a3, of sample_env world0, unfolded b3]
    by (simp add: s e fetch_calls_def http_gets_def)
qed

text \<open>
  The claim as the specification states it fails on an input with a blank before the
  command word, and on an input with a tab after it: the trimmed, lowercased form of
  each starts with \<^verbatim>\<open>scrape\<close> followed by whitespace, and neither triggers a fetch.
\<close>

theorem scrape_needs_leading_word_and_blank:
  "startswith (lower (strip '' scrape http://example.com'')) ''scrape ''
   \<and> fetch_calls (events (fst (generate_response sample_env world0 '' scrape http://example.com''))) = []
   \<and> isspace (CHR 0x09)
   \<and> startswith (lower (strip (''scrape'' @ [CHR 0x09] @ ''http://example.com''))) ''scrape''
   \<and> fetch_calls (events (fst (generate_response sample_env world0
         (''scrape'' @ [CHR 0x09] @ ''http://example.com'')))) = []"
proof -
  have a: "startswith (lower (strip '' scrape http://example.com'')) ''scrape ''" by code_simp
  have b: "\<not> startswith (lower '' scrape http://example.com'') ''scrape ''" by code_simp
  have c: "isspace (CHR 0x09)" by code_simp
  have d: "startswith (lower (strip (''scrape'' @ [CHR 0x09] @ ''http://example.com''))) ''scrape''"
    by code_simp
  have e: "\<not> startswith (lower (''scrape'' @ [CHR 0x09] @ ''http://example.com'')) ''scrape ''"
    by code_simp
  show ?thesis
    using a c d generate_response_no_scrape [OF b, of sample_env world0]
      generate_response_no_scrape [OF e, of sample_env world0]
    by (simp add: world0_def fetch_calls_def)
qed

subsection \<open>The matcher\<close>

lemma dot_zeros: "dot (replicate n 0) y = 0"
proof (induction n arbitrary: y)
  case 0
  show ?case by (simp add: dot_def)
next
  case (Suc n)
  then show ?case by (cases y) (simp_all add: dot_def)
qed

lemma norm2_zeros: "norm2 (replicate n 0) = 0"
  by (simp add: norm2_def sum_list_replicate)

lemma l2_normalize_zeros: "l2_normalize (replicate n 0) = replicate n 0"
  by (simp add: l2_normalize_def norm2_zeros)

lemma argmax_from_zeros: "argmax_from b 0 i (replicate n 0) = b"
  by (induction n arbitrary: i) simp_all

lemma argmax_zeros: "argmax (replicate n 0) = 0"
  by (cases n) (simp_all add: argmax_def argmax_from_zeros)

lemma length_similarities: "length (similarities env q) = length ADVANCED_KNOWLEDGE"
  by (simp add: similarities_def cosine_similarity_def knowledge_vectors_def knowledge_questions_def)

lemma knowledge_nonempty: "0 < length ADVANCED_KNOWLEDGE"
  by (simp add: ADVANCED_KNOWLEDGE_def)

lemma analyze_questions:
  "map analyze knowledge_questions =
     [[''hello''], [''how'', ''are'', ''you''], [''what'', ''is'', ''your'', ''name''],
      [''tell'', ''me'', ''joke''], [''what'', ''time'', ''is'', ''it''],
      [''what'', ''is'', ''the'', ''date''], [''who'', ''is'', ''albert'', ''einstein''],
      [''define'', ''artificial'', ''intelligence'']]"
  by code_simp

lemma vocabulary_value:
  "vocabulary = [''albert'', ''are'', ''artificial'', ''date'', ''define'', ''einstein'', ''hello'', ''how'', ''intelligence'', ''is'', ''it'', ''joke'', ''me'', ''name'', ''tell'', ''the'', ''time'', ''what'', ''who'', ''you'', ''your'']"
  unfolding vocabulary_def analyze_questions by code_simp

lemma tf_idf_unseen:
  assumes "set (analyze doc) \<inter> set vocabulary = {}"
  shows "tf_idf doc = replicate (length vocabulary) 0"
proof -
  have "count_list (analyze doc) t = 0" if "t \<in> set vocabulary" for t
    using that assms by (auto simp add: count_list_0_iff)
  then have "term_counts doc = map (\<lambda>t. 0) vocabulary"
    by (simp add: term_counts_def)
  then have "tf_idf doc = map (\<lambda>t. 0) vocabulary"
    by (simp add: tf_idf_def zip_map1 zip_same_conv_map)
  then show ?thesis by (simp add: map_replicate_const)
qed

text \<open>
  Claim C7. When no term that the vectorizer reads in the preprocessed query is in the
  vocabulary fitted on the knowledge-base questions (this includes a query of which
  preprocessing leaves nothing), the query vector is zero in every entry, the similarity
  to every knowledge-base entry is 0, and \<open>custom_semantic_match\<close> returns \<^verbatim>\<open>None\<close>.
\<close>

theorem unseen_terms_no_match:
  assumes "set (analyze (preprocess env user_input)) \<inter> set vocabulary = {}"
  shows "transform (preprocess env user_input) = replicate (length vocabulary) 0
         \<and> similarities env user_input = replicate (length ADVANCED_KNOWLEDGE) 0
         \<and> custom_semantic_match env user_input = None"
proof -
  let ?n = "length ADVANCED_KNOWLEDGE"
  have t: "transform (preprocess env user_input) = replicate (length vocabulary) 0"
    by (simp add: transform_def tf_idf_unseen [OF assms] l2_normalize_zeros)
  have "similarities env user_input = map (\<lambda>y. 0) knowledge_vectors"
    by (simp add: similarities_def cosine_similarity_def t l2_normalize_zeros dot_zeros)
  then have s: "similarities env user_input = replicate ?n 0"
    by (simp add: map_replicate_const knowledge_vectors_def knowledge_questions_def)
  have z: "replicate ?n (0::real) ! 0 = 0"
    using knowledge_nonempty by (rule nth_replicate)
  have "custom_semantic_match env user_input = None"
    by (simp add: custom_semantic_match_def pick_answer_def threshold_def s argmax_zeros z Let_def)
  then show ?thesis using t s by simp
qed

theorem unseen_terms_no_match_witness:
  "custom_semantic_match sample_env ''how are you'' = None
   \<and> similarities sample_env ''zebra crossing'' = replicate (length ADVANCED_KNOWLEDGE) 0
   \<and> custom_semantic_match sample_env ''zebra crossing'' = None"
proof -
  have a: "set (analyze (preprocess sample_env ''how are you'')) \<inter> set vocabulary = {}"
    unfolding vocabulary_value by code_simp
  have b: "set (analyze (preprocess sample_env ''zebra crossing'')) \<inter> set vocabulary = {}"
    unfolding vocabulary_value by code_simp
  show ?thesis
    using unseen_terms_no_match [OF a] unseen_terms_no_match [OF b] by simp
qed

lemma argmax_from_spec:
  assumes "ys = pre @ xs" and "i = length pre" and "b < i" and "ys ! b = v"
    and "\<forall>y \<in> set pre. y \<le> v" and "\<forall>j < b. ys ! j < v"
  shows "argmax_from b v i xs < length ys
         \<and> (\<forall>y \<in> set ys. y \<le> ys ! argmax_from b v i xs)
         \<and> (\<forall>j < argmax_from b v i xs. ys ! j < ys ! argmax_from b v i xs)"
  using assms
proof (induction xs arbitrary: b v i pre)
  case Nil
  then show ?case by auto
next
  case (Cons x xs)
  have ys: "ys = (pre @ [x]) @ xs" using Cons.prems(1) by simp
  have len: "Suc i = length (pre @ [x])" using Cons.prems(2) by simp
  have xi: "ys ! i = x" using Cons.prems(1,2) by simp
  show ?case
  proof (cases "v < x")
    case True
    have 1: "i < Suc i" by simp
    have 2: "\<forall>y \<in> set (pre @ [x]). y \<le> x" using Cons.prems(5) True by auto
    have 3: "\<forall>j < i. ys ! j < x"
    proof (intro allI impI)
      fix j assume "j < i"
      then have "ys ! j \<in> set pre" using Cons.prems(1,2) by (simp add: nth_append)
      then show "ys ! j < x" using Cons.prems(5) True by auto
    qed
    show ?thesis
      using Cons.IH [OF ys len 1 xi 2 3] True by simp
  next
    case False
    have 1: "b < Suc i" using Cons.prems(3) by simp
    have 2: "\<forall>y \<in> set (pre @ [x]). y \<le> v" using Cons.prems(5) False by auto
    show ?thesis
      using Cons.IH [OF ys len 1 Cons.prems(4) 2 Cons.prems(6)] False by simp
  qed
qed

lemma argmax_spec:
  assumes "xs \<noteq> []"
  shows "argmax xs < length xs" and "xs ! argmax xs = Max (set xs)"
    and "\<forall>j < argmax xs. xs ! j < xs ! argmax xs"
proof -
  obtain x rest where xs: "xs = x # rest" using assms by (cases xs) auto
  have s: "argmax_from 0 x 1 rest < length xs
         \<and> (\<forall>y \<in> set xs. y \<le> xs ! argmax_from 0 x 1 rest)
         \<and> (\<forall>j < argmax_from 0 x 1 rest. xs ! j < xs ! argmax_from 0 x 1 rest)"
    by (rule argmax_from_spec [where pre = "[x]"]) (simp_all add: xs)
  have a: "argmax xs = argmax_from 0 x 1 rest" by (simp add: argmax_def xs)
  show "argmax xs < length xs" using s a by simp
  then have "xs ! argmax xs \<in> set xs" by simp
  moreover have "\<forall>y \<in> set xs. y \<le> xs ! argmax xs" using s a by simp
  ultimately show "xs ! argmax xs = Max (set xs)"
    by (metis List.finite_set Max_eqI)
  show "\<forall>j < argmax xs. xs ! j < xs ! argmax xs" using s a by simp
qed

lemma sum_squares_nonneg: "0 \<le> sum_list (map (\<lambda>x. x * x) (v :: real list))"
  by (induction v) simp_all

lemma sum_squares_zero:
  "sum_list (map (\<lambda>x. x * x) (v :: real list)) = 0 \<Longrightarrow> v = replicate (length v) 0"
proof (induction v)
  case Nil
  show ?case by simp
next
  case (Cons x v)
  have "0 \<le> x * x" by simp
  moreover have "0 \<le> sum_list (map (\<lambda>x. x * x) v)" by (rule sum_squares_nonneg)
  moreover have "x * x + sum_list (map (\<lambda>x. x * x) v) = 0" using Cons.prems by simp
  ultimately have "x * x = 0" and "sum_list (map (\<lambda>x. x * x) v) = 0" by linarith+
  then show ?case using Cons.IH by simp
qed

lemma norm2_nonneg: "0 \<le> norm2 v"
  by (simp add: norm2_def sum_squares_nonneg)

lemma norm2_zero: "norm2 v = 0 \<Longrightarrow> v = replicate (length v) 0"
  by (simp add: norm2_def sum_squares_zero)

lemma dot_zeros_right: "dot x (replicate n 0) = 0"
proof (induction n arbitrary: x)
  case 0
  show ?case by (simp add: dot_def)
next
  case (Suc n)
  then show ?case by (cases x) (simp_all add: dot_def)
qed

lemma dot_scale_left: "dot (map (\<lambda>a. a / n) x) y = dot x y / n"
proof (induction x arbitrary: y)
  case Nil
  show ?case by (simp add: dot_def)
next
  case (Cons a x)
  show ?case
  proof (cases y)
    case Nil
    then show ?thesis by (simp add: dot_def)
  next
    case (Cons b y')
    then show ?thesis using Cons.IH [of y'] by (simp add: dot_def add_divide_distrib)
  qed
qed

lemma dot_commute: "dot x y = dot y x"
proof (induction x arbitrary: y)
  case Nil
  show ?case by (simp add: dot_def)
next
  case (Cons a x)
  show ?case
  proof (cases y)
    case Nil
    then show ?thesis by (simp add: dot_def)
  next
    case (Cons b y')
    then show ?thesis using Cons.IH [of y'] by (simp add: dot_def)
  qed
qed

lemma dot_scale_right: "dot x (map (\<lambda>a. a / n) y) = dot x y / n"
  using dot_scale_left [of n y x] by (simp add: dot_commute)

lemma cosine_formula:
  "dot (l2_normalize x) (l2_normalize y) = dot x y / (norm2 x * norm2 y)"
proof (cases "norm2 x = 0")
  case True
  then have "x = replicate (length x) 0" by (rule norm2_zero)
  then have "dot (l2_normalize x) (l2_normalize y) = 0"
    using True by (metis dot_zeros l2_normalize_zeros)
  then show ?thesis using True by simp
next
  case False
  show ?thesis
  proof (cases "norm2 y = 0")
    case True
    then have "y = replicate (length y) 0" by (rule norm2_zero)
    then have "dot (l2_normalize x) (l2_normalize y) = 0"
      by (metis dot_zeros_right l2_normalize_zeros)
    then show ?thesis using True by simp
  next
    case ny: False
    show ?thesis
      using False ny by (simp add: l2_normalize_def dot_scale_left dot_scale_right)
  qed
qed

lemma sum_squares_scale:
  "sum_list (map (\<lambda>x. x * x) (map (\<lambda>a. a / n) (v :: real list)))
     = sum_list (map (\<lambda>x. x * x) v) / (n * n)"
  by (induction v) (simp_all add: add_divide_distrib)

lemma l2_normalize_idem: "l2_normalize (l2_normalize v) = l2_normalize v"
proof (cases "norm2 v = 0")
  case True
  then show ?thesis by (simp add: l2_normalize_def)
next
  case False
  let ?n = "norm2 v"
  have pos: "0 < ?n" using False norm2_nonneg [of v] by simp
  have sq: "?n * ?n = sum_list (map (\<lambda>x. x * x) v)"
    by (simp add: norm2_def sum_squares_nonneg)
  have "norm2 (map (\<lambda>a. a / ?n) v) = sqrt (sum_list (map (\<lambda>x. x * x) v) / (?n * ?n))"
    by (simp only: norm2_def sum_squares_scale)
  also have "\<dots> = 1" using pos by (simp add: sq [symmetric])
  finally have one: "norm2 (map (\<lambda>a. a / ?n) v) = 1" .
  have "l2_normalize v = map (\<lambda>a. a / ?n) v" using False by (simp add: l2_normalize_def)
  then show ?thesis using one by (simp add: l2_normalize_def)
qed

lemma similarities_formula:
  "similarities env q =
     map (\<lambda>d. dot (tf_idf (preprocess env q)) (tf_idf d)
               / (norm2 (tf_idf (preprocess env q)) * norm2 (tf_idf d)))
       knowledge_questions"
proof -
  have "similarities env q =
     map (\<lambda>d. dot (l2_normalize (tf_idf (preprocess env q))) (l2_normalize (tf_idf d)))
       knowledge_questions"
    by (simp add: similarities_def cosine_similarity_def knowledge_vectors_def transform_def
        l2_normalize_idem comp_def)
  then show ?thesis by (simp only: cosine_formula)
qed

lemma doc_freq_vocabulary:
  "map doc_freq vocabulary = [1, 1, 1, 1, 1, 1, 1, 1, 1, 4, 1, 1, 1, 1, 1, 1, 1, 3, 1, 1, 1]"
proof -
  have "doc_freq t
          = length (filter (\<lambda>a. List.member a t) (map analyze knowledge_questions))" for t
    by (simp add: doc_freq_def filter_map comp_def)
  then have "map doc_freq vocabulary
          = map (\<lambda>t. length (filter (\<lambda>a. List.member a t) (map analyze knowledge_questions)))
              vocabulary"
    by simp
  also have "\<dots> = [1, 1, 1, 1, 1, 1, 1, 1, 1, 4, 1, 1, 1, 1, 1, 1, 1, 3, 1, 1, 1]"
    unfolding analyze_questions vocabulary_value by code_simp
  finally show ?thesis .
qed

lemma length_knowledge_questions: "length knowledge_questions = 8"
  by (simp add: knowledge_questions_def ADVANCED_KNOWLEDGE_def)

lemma idf_vocabulary:
  "map idf vocabulary = [smooth_idf 8 1, smooth_idf 8 1, smooth_idf 8 1, smooth_idf 8 1, smooth_idf 8 1, smooth_idf 8 1, smooth_idf 8 1, smooth_idf 8 1, smooth_idf 8 1, smooth_idf 8 4, smooth_idf 8 1, smooth_idf 8 1, smooth_idf 8 1, smooth_idf 8 1, smooth_idf 8 1, smooth_idf 8 1, smooth_idf 8 1, smooth_idf 8 3, smooth_idf 8 1, smooth_idf 8 1, smooth_idf 8 1]"
proof -
  have "map idf vocabulary = map (smooth_idf 8) (map doc_freq vocabulary)"
    by (simp add: idf_def length_knowledge_questions comp_def)
  then show ?thesis by (simp only: doc_freq_vocabulary list.map)
qed

lemma tf_idf_weights:
  "tf_idf doc = map2 (\<lambda>c w. real c * w) (term_counts doc) (map idf vocabulary)"
  by (simp add: tf_idf_def zip_map2 comp_def case_prod_unfold)

lemma term_counts_questions:
  "map term_counts knowledge_questions =
    [[0, 0, 0, 0, 0, 0, 1, 0, 0, 0, 0, 0, 0, 0, 0, 0, 0, 0, 0, 0, 0],
     [0, 1, 0, 0, 0, 0, 0, 1, 0, 0, 0, 0, 0, 0, 0, 0, 0, 0, 0, 1, 0],
     [0, 0, 0, 0, 0, 0, 0, 0, 0, 1, 0, 0, 0, 1, 0, 0, 0, 1, 0, 0, 1],
     [0, 0, 0, 0, 0, 0, 0, 0, 0, 0, 0, 1, 1, 0, 1, 0, 0, 0, 0, 0, 0],
     [0, 0, 0, 0, 0, 0, 0, 0, 0, 1, 1, 0, 0, 0, 0, 0, 1, 1, 0, 0, 0],
     [0, 0, 0, 1, 0, 0, 0, 0, 0, 1, 0, 0, 0, 0, 0, 1, 0, 1, 0, 0, 0],
     [1, 0, 0, 0, 0, 1, 0, 0, 0, 1, 0, 0, 0, 0, 0, 0, 0, 0, 1, 0, 0],
     [0, 0, 1, 0, 1, 0, 0, 0, 1, 0, 0, 0, 0, 0, 0, 0, 0, 0, 0, 0, 0]]"
proof -
  have "map term_counts knowledge_questions
          = map (\<lambda>a. map (count_list a) vocabulary) (map analyze knowledge_questions)"
    by (simp add: term_counts_def comp_def)
  also have "\<dots> =
    [[0, 0, 0, 0, 0, 0, 1, 0, 0, 0, 0, 0, 0, 0, 0, 0, 0, 0, 0, 0, 0],
     [0, 1, 0, 0, 0, 0, 0, 1, 0, 0, 0, 0, 0, 0, 0, 0, 0, 0, 0, 1, 0],
     [0, 0, 0, 0, 0, 0, 0, 0, 0, 1, 0, 0, 0, 1, 0, 0, 0, 1, 0, 0, 1],
     [0, 0, 0, 0, 0, 0, 0, 0, 0, 0, 0, 1, 1, 0, 1, 0, 0, 0, 0, 0, 0],
     [0, 0, 0, 0, 0, 0, 0, 0, 0, 1, 1, 0, 0, 0, 0, 0, 1, 1, 0, 0, 0],
     [0, 0, 0, 1, 0, 0, 0, 0, 0, 1, 0, 0, 0, 0, 0, 1, 0, 1, 0, 0, 0],
     [1, 0, 0, 0, 0, 1, 0, 0, 0, 1, 0, 0, 0, 0, 0, 0, 0, 0, 1, 0, 0],
     [0, 0, 1, 0, 1, 0, 0, 0, 1, 0, 0, 0, 0, 0, 0, 0, 0, 0, 0, 0, 0]]"
    unfolding analyze_questions vocabulary_value by code_simp
  finally show ?thesis .
qed

lemma tf_idf_questions:
  "map tf_idf knowledge_questions =
    [[0, 0, 0, 0, 0, 0, smooth_idf 8 1, 0, 0, 0, 0, 0, 0, 0, 0, 0, 0, 0, 0, 0, 0],
     [0, smooth_idf 8 1, 0, 0, 0, 0, 0, smooth_idf 8 1, 0, 0, 0, 0, 0, 0, 0, 0, 0, 0, 0, smooth_idf 8 1, 0],
     [0, 0, 0, 0, 0, 0, 0, 0, 0, smooth_idf 8 4, 0, 0, 0, smooth_idf 8 1, 0, 0, 0, smooth_idf 8 3, 0, 0, smooth_idf 8 1],
     [0, 0, 0, 0, 0, 0, 0, 0, 0, 0, 0, smooth_idf 8 1, smooth_idf 8 1, 0, smooth_idf 8 1, 0, 0, 0, 0, 0, 0],
     [0, 0, 0, 0, 0, 0, 0, 0, 0, smooth_idf 8 4, smooth_idf 8 1, 0, 0, 0, 0, 0, smooth_idf 8 1, smooth_idf 8 3, 0, 0, 0],
     [0, 0, 0, smooth_idf 8 1, 0, 0, 0, 0, 0, smooth_idf 8 4, 0, 0, 0, 0, 0, smooth_idf 8 1, 0, smooth_idf 8 3, 0, 0, 0],
     [smooth_idf 8 1, 0, 0, 0, 0, smooth_idf 8 1, 0, 0, 0, smooth_idf 8 4, 0, 0, 0, 0, 0, 0, 0, 0, smooth_idf 8 1, 0, 0],
     [0, 0, smooth_idf 8 1, 0, smooth_idf 8 1, 0, 0, 0, smooth_idf 8 1, 0, 0, 0, 0, 0, 0, 0, 0, 0, 0, 0, 0]]"
proof -
  have "map tf_idf knowledge_questions
          = map (\<lambda>cs. map2 (\<lambda>c w. real c * w) cs (map idf vocabulary))
              (map term_counts knowledge_questions)"
    by (simp add: tf_idf_weights comp_def)
  then show ?thesis
    by (simp only: term_counts_questions idf_vocabulary) simp
qed

lemma tf_idf_name:
  "tf_idf ''name'' = [0, 0, 0, 0, 0, 0, 0, 0, 0, 0, 0, 0, 0, smooth_idf 8 1, 0, 0, 0, 0, 0, 0, 0]"
proof -
  have a: "analyze ''name'' = [''name'']"
    by code_simp
  have c: "term_counts ''name'' = [0, 0, 0, 0, 0, 0, 0, 0, 0, 0, 0, 0, 0, 1, 0, 0, 0, 0, 0, 0, 0]"
    unfolding term_counts_def a vocabulary_value by code_simp
  show ?thesis by (simp only: tf_idf_weights c idf_vocabulary) simp
qed

lemma tf_idf_hello_tell:
  "tf_idf ''hello hello hello tell tell tell tell'' = [0, 0, 0, 0, 0, 0, 3 * smooth_idf 8 1, 0, 0, 0, 0, 0, 0, 0, 4 * smooth_idf 8 1, 0, 0, 0, 0, 0, 0]"
proof -
  have a: "analyze ''hello hello hello tell tell tell tell'' = [''hello'', ''hello'', ''hello'', ''tell'', ''tell'', ''tell'', ''tell'']"
    by code_simp
  have c: "term_counts ''hello hello hello tell tell tell tell'' = [0, 0, 0, 0, 0, 0, 3, 0, 0, 0, 0, 0, 0, 0, 4, 0, 0, 0, 0, 0, 0]"
    unfolding term_counts_def a vocabulary_value by code_simp
  show ?thesis by (simp only: tf_idf_weights c idf_vocabulary) simp
qed

lemma ln_upper:
  assumes "0 < x" and "x \<le> (1 + y / real n) ^ n" and "- real n \<le> y" and "0 < n"
  shows "ln x \<le> y"
proof -
  have "x \<le> exp y"
    using assms(2) exp_ge_one_plus_x_over_n_power_n [OF assms(3,4)] by linarith
  then have "ln x \<le> ln (exp y)" using assms(1) by (simp del: ln_exp)
  then show ?thesis by simp
qed

lemma ln_lower:
  assumes "0 < x" and "1 / x \<le> (1 - y / real n) ^ n" and "y \<le> real n" and "0 < n"
  shows "y \<le> ln x"
proof -
  have "1 / x \<le> exp (- y)"
    using assms(2) exp_ge_one_minus_x_over_n_power_n [OF assms(3,4)] by linarith
  then have "exp y \<le> x"
    using assms(1) by (simp add: exp_minus field_simps)
  then show ?thesis using assms(1) by (simp add: ln_ge_iff)
qed

lemma weight_rare_upper: "smooth_idf 8 1 \<le> 13 / 5"
proof -
  have "ln (9 / 2 :: real) \<le> 8 / 5"
    by (rule ln_upper [where n = 16]) (simp_all add: power_divide)
  then show ?thesis by (simp add: smooth_idf_def)
qed

lemma weight_rare_pos: "0 < smooth_idf 8 1"
proof -
  have "0 \<le> ln (9 / 2 :: real)" by simp
  then have "0 < ln (9 / 2 :: real) + 1" by linarith
  then show ?thesis by (simp add: smooth_idf_def)
qed

lemma weight_what_lower: "7 / 4 \<le> smooth_idf 8 3"
proof -
  have "3 / 4 \<le> ln (9 / 4 :: real)"
    by (rule ln_lower [where n = 8]) (simp_all add: power_divide)
  then show ?thesis by (simp add: smooth_idf_def)
qed

lemma weight_is_lower: "31 / 20 \<le> smooth_idf 8 4"
proof -
  have "11 / 20 \<le> ln (9 / 5 :: real)"
    by (rule ln_lower [where n = 8]) (simp_all add: power_divide)
  then show ?thesis by (simp add: smooth_idf_def)
qed

lemma similarities_rows:
  "similarities env q =
     map (\<lambda>D. dot (tf_idf (preprocess env q)) D / (norm2 (tf_idf (preprocess env q)) * norm2 D))
       (map tf_idf knowledge_questions)"
  by (simp add: similarities_formula comp_def)

lemma no_match_below:
  assumes "\<forall>s \<in> set (similarities env q). s \<le> threshold"
  shows "custom_semantic_match env q = None"
proof -
  have ne: "similarities env q \<noteq> []"
    using length_similarities [of env q] knowledge_nonempty by auto
  have "similarities env q ! argmax (similarities env q) \<in> set (similarities env q)"
    using argmax_spec(1) [OF ne] by simp
  then have "similarities env q ! argmax (similarities env q) \<le> threshold"
    using assms by blast
  then show ?thesis by (simp add: custom_semantic_match_def pick_answer_def Let_def)
qed

lemma own_name_similarity:
  "smooth_idf 8 1 / sqrt (2 * (smooth_idf 8 1 * smooth_idf 8 1)
       + smooth_idf 8 3 * smooth_idf 8 3 + smooth_idf 8 4 * smooth_idf 8 4) \<le> 599 / 1000"
proof -
  let ?A = "smooth_idf 8 1" and ?B = "smooth_idf 8 3" and ?C = "smooth_idf 8 4"
  let ?T = "2 * (?A * ?A) + ?B * ?B + ?C * ?C"
  have A: "0 < ?A" "?A \<le> 13 / 5" by (rule weight_rare_pos) (rule weight_rare_upper)
  have B: "7 / 4 \<le> ?B" by (rule weight_what_lower)
  have C: "31 / 20 \<le> ?C" by (rule weight_is_lower)
  have AA: "?A * ?A \<le> (13 / 5) * (13 / 5)" using A by (intro mult_mono) simp_all
  have BB: "(7 / 4) * (7 / 4) \<le> ?B * ?B" using B by (intro mult_mono) simp_all
  have CC: "(31 / 20) * (31 / 20) \<le> ?C * ?C" using C by (intro mult_mono) simp_all
  have "(1000 * ?A / 599)\<^sup>2 = 1000000 * (?A * ?A) / 358801" by (simp add: power2_eq_square)
  also have "\<dots> \<le> ?T" using AA BB CC by simp
  finally have "1000 * ?A / 599 \<le> sqrt ?T" by (rule real_le_rsqrt)
  moreover have "0 < sqrt ?T" using A(1) calculation by linarith
  ultimately show ?thesis by (simp add: field_simps)
qed

text \<open>
  Claim C6. The constant of line 110 is the float64 value of \<^verbatim>\<open>0.6\<close>, and the test is
  exclusive. For every array of similarities, one value for each knowledge-base entry
  (the array that line 107 computes for a query is one, with whatever rounding): when the
  greatest value is exactly the threshold, and when it is below, lines 108 to 115 return
  \<^verbatim>\<open>None\<close>; when it is greater, they return the answer of the entry at the first index
  where the greatest value is reached, the text of a static answer and the result of the
  generator of a dynamic one. \<open>custom_semantic_match\<close> applies these lines to the
  similarities of the query.
\<close>

theorem threshold_is_exclusive:
  assumes "length sims = length ADVANCED_KNOWLEDGE"
  shows "threshold = 5404319552844595 / 9007199254740992
         \<and> (Max (set sims) = threshold \<longrightarrow> pick_answer env sims = None)
         \<and> (Max (set sims) < threshold \<longrightarrow> pick_answer env sims = None)
         \<and> (threshold < Max (set sims) \<longrightarrow>
              argmax sims < length ADVANCED_KNOWLEDGE
              \<and> sims ! argmax sims = Max (set sims)
              \<and> (\<forall>j < argmax sims. sims ! j < Max (set sims))
              \<and> pick_answer env sims =
                  (case answer (ADVANCED_KNOWLEDGE ! argmax sims) of
                     Dynamic f \<Rightarrow> Some (f (strftime env))
                   | Static s \<Rightarrow> Some s))
         \<and> custom_semantic_match env q = pick_answer env (similarities env q)
         \<and> length (similarities env q) = length ADVANCED_KNOWLEDGE"
proof -
  have ne: "sims \<noteq> []" using assms knowledge_nonempty by auto
  note a = argmax_spec [OF ne]
  have 1: "threshold = 5404319552844595 / 9007199254740992" by (simp add: threshold_def)
  have 2: "Max (set sims) \<le> threshold \<Longrightarrow> pick_answer env sims = None"
    using a(2) by (simp add: pick_answer_def Let_def)
  have 3: "threshold < Max (set sims) \<Longrightarrow>
             pick_answer env sims =
               (case answer (ADVANCED_KNOWLEDGE ! argmax sims) of
                  Dynamic f \<Rightarrow> Some (f (strftime env))
                | Static s \<Rightarrow> Some s)"
    using a(2) by (simp add: pick_answer_def Let_def)
  show ?thesis
    using 1 2 3 a assms by (simp add: custom_semantic_match_def length_similarities)
qed

theorem threshold_is_exclusive_witness:
  "pick_answer sample_env [0, 0, threshold, 0, 0, 0, 0, 0] = None
   \<and> pick_answer sample_env [0, 0, 599999 / 1000000, 0, 0, 0, 0, 0] = None
   \<and> pick_answer sample_env [0, 0, 600001 / 1000000, 0, 0, 0, 0, 0]
       = Some ''I am an NLTK Flask Chatbot.''
   \<and> pick_answer sample_env [0, 0, 7 / 10, 0, 1, 0, 1, 0] = Some ''The current time is 12:00:00.''
   \<and> custom_semantic_match sample_env ''hello hello hello tell tell tell tell''
       = Some ''Hello there! How can I help you today?''"
proof -
  let ?q = "''hello hello hello tell tell tell tell''"
  let ?A = "smooth_idf 8 1"
  have A: "0 < ?A" by (rule weight_rare_pos)
  have len: "length ADVANCED_KNOWLEDGE = 8" by (simp add: ADVANCED_KNOWLEDGE_def)
  have k2: "answer (ADVANCED_KNOWLEDGE ! Suc (Suc 0)) = Static ''I am an NLTK Flask Chatbot.''"
    by (simp add: ADVANCED_KNOWLEDGE_def)
  have k4: "answer (ADVANCED_KNOWLEDGE ! Suc (Suc (Suc (Suc 0))))
              = Dynamic (\<lambda>fmt. ''The current time is '' @ fmt ''%H:%M:%S'' @ ''.'')"
    by (simp add: ADVANCED_KNOWLEDGE_def)
  have k0: "answer (ADVANCED_KNOWLEDGE ! 0) = Static ''Hello there! How can I help you today?''"
    by (simp add: ADVANCED_KNOWLEDGE_def)
  have t: "strftime sample_env ''%H:%M:%S'' = ''12:00:00''" by (simp add: sample_env_def)
  have w1: "pick_answer sample_env [0, 0, threshold, 0, 0, 0, 0, 0] = None"
    using threshold_is_exclusive [of "[0, 0, threshold, 0, 0, 0, 0, 0]" sample_env "[]"]
    by (simp add: len threshold_def)
  have w2: "pick_answer sample_env [0, 0, 599999 / 1000000, 0, 0, 0, 0, 0] = None"
    using threshold_is_exclusive [of "[0, 0, 599999 / 1000000, 0, 0, 0, 0, 0]" sample_env "[]"]
    by (simp add: len threshold_def)
  have w3: "pick_answer sample_env [0, 0, 600001 / 1000000, 0, 0, 0, 0, 0]
              = Some ''I am an NLTK Flask Chatbot.''"
    using threshold_is_exclusive [of "[0, 0, 600001 / 1000000, 0, 0, 0, 0, 0]" sample_env "[]"]
    by (simp add: len threshold_def argmax_def k2)
  have w4: "pick_answer sample_env [0, 0, 7 / 10, 0, 1, 0, 1, 0]
              = Some ''The current time is 12:00:00.''"
    using threshold_is_exclusive [of "[0, 0, 7 / 10, 0, 1, 0, 1, 0]" sample_env "[]"]
    by (simp add: len threshold_def argmax_def k4 t)
  have p: "preprocess sample_env ?q = ?q" by code_simp
  have n1: "sqrt (9 * (?A * ?A) + 16 * (?A * ?A)) = 5 * ?A"
    using A by (intro real_sqrt_unique) (simp_all add: power2_eq_square)
  have n2: "sqrt (?A * ?A) = ?A" using A by simp
  have n3: "sqrt (?A * ?A + (?A * ?A + ?A * ?A)) = sqrt 3 * ?A"
  proof -
    have "?A * ?A + (?A * ?A + ?A * ?A) = 3 * (?A * ?A)" by simp
    then show ?thesis using A by (simp add: real_sqrt_mult)
  qed
  have "similarities sample_env ?q =
          [3 * ?A * ?A / (sqrt (9 * (?A * ?A) + 16 * (?A * ?A)) * sqrt (?A * ?A)), 0, 0,
           4 * ?A * ?A / (sqrt (9 * (?A * ?A) + 16 * (?A * ?A))
                           * sqrt (?A * ?A + (?A * ?A + ?A * ?A))), 0, 0, 0, 0]"
    by (simp add: similarities_rows p tf_idf_hello_tell tf_idf_questions dot_def norm2_def)
  also have "\<dots> = [3 / 5, 0, 0, 4 / (5 * sqrt 3), 0, 0, 0, 0]"
    unfolding n1 n2 n3 using A by simp
  finally have sims: "similarities sample_env ?q = [3 / 5, 0, 0, 4 / (5 * sqrt 3), 0, 0, 0, 0]" .
  have "(4 / 3)\<^sup>2 \<le> (3 :: real)" by (simp add: power2_eq_square)
  then have "4 / 3 \<le> sqrt 3" by (rule real_le_rsqrt)
  then have s3: "4 / (5 * sqrt 3) \<le> 3 / 5" by (simp add: field_simps)
  have m: "Max (set [3 / 5, 0, 0, 4 / (5 * sqrt 3), 0, 0, 0, 0]) = 3 / 5"
    using s3 by (simp add: max_def)
  have am: "argmax [3 / 5, 0, 0, 4 / (5 * sqrt 3), 0, 0, 0, 0] = 0"
    using s3 by (simp add: argmax_def)
  have w5: "custom_semantic_match sample_env ?q = Some ''Hello there! How can I help you today?''"
    using threshold_is_exclusive
            [of "[3 / 5, 0, 0, 4 / (5 * sqrt 3), 0, 0, 0, 0]" sample_env ?q]
    unfolding m am sims by (simp add: len threshold_def k0)
  show ?thesis using w1 w2 w3 w4 w5 by simp
qed

text \<open>
  Claim C3 at a failing input. Line 46 fits the vectorizer on the questions as they are
  written, line 105 preprocesses the query. For the third question, \<^verbatim>\<open>what is your name\<close>,
  preprocessing leaves \<^verbatim>\<open>name\<close>, while the entry's own vector also weighs \<^verbatim>\<open>what\<close>, \<^verbatim>\<open>is\<close>
  and \<^verbatim>\<open>your\<close>: the similarity of the question to its own entry is not above 0.6, and
  the matcher returns \<^verbatim>\<open>None\<close>.
\<close>

theorem own_question_not_matched:
  "question (ADVANCED_KNOWLEDGE ! 2) = ''what is your name''
   \<and> preprocess sample_env ''what is your name'' = ''name''
   \<and> similarities sample_env ''what is your name'' ! 2 \<le> 6 / 10
   \<and> custom_semantic_match sample_env ''what is your name'' = None"
proof -
  let ?q = "''what is your name''"
  let ?A = "smooth_idf 8 1" and ?B = "smooth_idf 8 3" and ?C = "smooth_idf 8 4"
  let ?S = "?A / sqrt (2 * (?A * ?A) + ?B * ?B + ?C * ?C)"
  have k: "question (ADVANCED_KNOWLEDGE ! 2) = ?q" by (simp add: ADVANCED_KNOWLEDGE_def)
  have p: "preprocess sample_env ?q = ''name''" by code_simp
  have A: "0 < ?A" by (rule weight_rare_pos)
  have "similarities sample_env ?q =
          [0, 0, ?A * ?A / (sqrt (?A * ?A)
                  * sqrt (?C * ?C + (?A * ?A + (?B * ?B + ?A * ?A)))), 0, 0, 0, 0, 0]"
    by (simp add: similarities_rows p tf_idf_name tf_idf_questions dot_def norm2_def)
  also have "\<dots> = [0, 0, ?S, 0, 0, 0, 0, 0]"
    using A by (simp add: algebra_simps)
  finally have sims: "similarities sample_env ?q = [0, 0, ?S, 0, 0, 0, 0, 0]" .
  have low: "?S \<le> 599 / 1000" by (rule own_name_similarity)
  have "\<forall>s \<in> set (similarities sample_env ?q). s \<le> threshold"
    unfolding sims using low by (simp add: threshold_def)
  then have "custom_semantic_match sample_env ?q = None" by (rule no_match_below)
  moreover have "?S \<le> 6 / 10" using low by linarith
  ultimately show ?thesis using k p by (simp add: sims)
qed

end
